theory Spec2Isabelle
  imports Main "HOL-Library.Sublist" "HOL-Library.Word"
begin

section \<open>JavaScript values used by the client\<close>

text \<open>
  A JavaScript \<open>number\<close> that holds a block height, a page count or a result code is an
  integer or \<open>NaN\<close> (what \<open>parseInt\<close> gives for a string without digits). Fractions,
  infinities and the rounding of integers beyond \<open>2^53\<close> are not modelled.
  Every comparison with \<open>NaN\<close> is false.
\<close>

datatype number = NaN | Num int

fun num_le :: "number \<Rightarrow> number \<Rightarrow> bool" where
  "num_le (Num a) (Num b) = (a \<le> b)"
| "num_le _ _ = False"

fun num_lt :: "number \<Rightarrow> number \<Rightarrow> bool" where
  "num_lt (Num a) (Num b) = (a < b)"
| "num_lt _ _ = False"

definition num_ge :: "number \<Rightarrow> number \<Rightarrow> bool" where
  "num_ge a b = num_le b a"

definition num_gt :: "number \<Rightarrow> number \<Rightarrow> bool" where
  "num_gt a b = num_lt b a"

definition MAX_SAFE_INTEGER :: int where
  "MAX_SAFE_INTEGER = 9007199254740991"

text \<open>
  \<open>x || d\<close> on an optional number: \<open>undefined\<close> (\<open>None\<close>), \<open>NaN\<close> and \<open>0\<close> are falsy
  and give the default \<open>d\<close>.
\<close>

fun num_or :: "number option \<Rightarrow> number \<Rightarrow> number" where
  "num_or None d = d"
| "num_or (Some NaN) d = d"
| "num_or (Some (Num n)) d = (if n = 0 then d else Num n)"

text \<open>\<open>s || d\<close> on an optional string: \<open>undefined\<close> and the empty string are falsy.\<close>

fun str_or :: "string option \<Rightarrow> string \<Rightarrow> string" where
  "str_or None d = d"
| "str_or (Some s) d = (if s = [] then d else s)"

text \<open>\<open>s || undefined\<close>.\<close>

fun str_or_undefined :: "string option \<Rightarrow> string option" where
  "str_or_undefined None = None"
| "str_or_undefined (Some s) = (if s = [] then None else Some s)"

subsection \<open>\<open>parseInt(s, 10)\<close>\<close>

text \<open>
  Leading white space is skipped (the ASCII white space characters; strings are byte
  lists here), one sign is read, then the longest prefix of decimal digits; no digit
  gives \<open>NaN\<close>. With the radix given as 10 no \<open>0x\<close> prefix is recognised.
\<close>

definition isWhiteSpace :: "char \<Rightarrow> bool" where
  "isWhiteSpace c = (c \<in> set [CHR 0x09, CHR 0x0A, CHR 0x0B, CHR 0x0C, CHR 0x0D, CHR '' ''])"

definition isDigit :: "char \<Rightarrow> bool" where
  "isDigit c = (c \<in> set ''0123456789'')"

definition digitVal :: "char \<Rightarrow> int" where
  "digitVal c = int (of_char c) - 48"

definition digitsVal :: "string \<Rightarrow> int" where
  "digitsVal ds = foldl (\<lambda>acc c. 10 * acc + digitVal c) 0 ds"

definition parseInt10 :: "string \<Rightarrow> number" where
  "parseInt10 str =
     (let S = dropWhile isWhiteSpace str;
          sign = (case S of c # _ \<Rightarrow> if c = CHR ''-'' then -1 else 1 | [] \<Rightarrow> 1);
          S' = (case S of c # rest \<Rightarrow> if c = CHR ''-'' \<or> c = CHR ''+'' then rest else S
                | [] \<Rightarrow> S);
          Z = takeWhile isDigit S'
      in if Z = [] then NaN else Num (sign * digitsVal Z))"

subsection \<open>Numbers in template literals\<close>

fun showNat :: "nat \<Rightarrow> string" where
  "showNat n =
     (if n < 10 then [char_of (48 + n)]
      else showNat (n div 10) @ [char_of (48 + n mod 10)])"

declare showNat.simps [simp del]

definition showInt :: "int \<Rightarrow> string" where
  "showInt i = (if i < 0 then CHR ''-'' # showNat (nat (- i)) else showNat (nat i))"

fun showNumber :: "number \<Rightarrow> string" where
  "showNumber NaN = ''NaN''"
| "showNumber (Num i) = showInt i"

section \<open>Errors\<close>

text \<open>
  Every failure of the client is a thrown \<open>Error\<close> carrying a message; the errors of
  the transport and of the imported libraries are \<open>Error\<close>s as well.
\<close>

datatype error = Error string

definition UnsupportedPaginationError :: "string \<Rightarrow> error" where
  "UnsupportedPaginationError total_count =
     Error (''Found more results on the backend than we can process currently. Results: ''
            @ total_count @ '', supported: '' @ showNat 100)"

definition UnknownQueryTypeError :: error where
  "UnknownQueryTypeError = Error ''Unknown query type''"

section \<open>Transactions and the search response\<close>

text \<open>
  Payloads the client only passes on (the signed transaction, one raw log entry, one
  parsed log) are kept as their JSON text.
\<close>

type_synonym json = string

record IndexedTx =
  height :: number
  hash :: string
  code :: number
  rawLog :: string
  logs :: "json list"
  tx :: json
  timestamp :: string

text \<open>One entry of the backend's search response, and the response itself.\<close>

record TxsResponse =
  r_height :: string
  r_txhash :: string
  r_code :: "number option"
  r_raw_log :: string
  r_logs :: "json list option"
  r_tx :: json
  r_timestamp :: string

record SearchTxsResponse =
  total_count :: string
  page_total :: string
  txs :: "TxsResponse list"

section \<open>The transport\<close>

text \<open>
  Every request that leaves the client is recorded. The backend is whatever answers:
  each endpoint is a function of the requests sent so far and of the request itself, so
  that a backend may answer the same request differently the second time. An endpoint
  returns what the call site casts the JSON to, or throws.
\<close>

datatype request =
    NodeInfo
  | Get string
  | TxsQuery string
  | BroadcastTx json


type_synonym Uint8Array = "8 word list"

record NodeInfoResponse =
  network :: "string option"

record Coin =
  denom :: string
  amount :: string

record PubKey =
  pk_type :: string
  pk_value :: string

text \<open>\<open>account.result.value\<close> of \<open>/auth/accounts/{address}\<close>.\<close>

record AccountValue =
  v_address :: string
  v_coins :: "Coin list"
  v_public_key :: json
  v_account_number :: json
  v_sequence :: json

record BroadcastTxsResponse =
  b_height :: string
  b_txhash :: string
  b_code :: "number option"
  b_raw_log :: "string option"
  b_logs :: "json list option"
  b_data :: "string option"

text \<open>The REST shapes of \<open>lcdapi/wasm.ts\<close>.\<close>

datatype 'a WasmResponse = WasmSuccess string 'a | WasmError string

record WasmCodeDetails =
  w_id :: number
  w_creator :: string
  w_data_hash :: string
  w_source :: "string option"
  w_builder :: "string option"
  w_data :: string

record ContractInfo =
  i_address :: string
  i_code_id :: number
  i_creator :: string
  i_admin :: "string option"
  i_label :: string

record WasmData =
  key :: string
  val :: string

text \<open>\<open>WasmData[] | null | string\<close>, the result of a raw query.\<close>

datatype RawQueryResult = RawArray "WasmData list" | RawNull | RawString string

text \<open>
  The environment of a client: the endpoints of \<open>LcdClient\<close> it calls (\<open>get\<close> once
  per cast), and the functions of \<open>@cosmjs/encoding\<close>, \<open>@cosmjs/math\<close> and
  \<open>@cosmjs/launchpad\<close> it imports. The library functions are parameters: the client's
  behaviour is stated for whatever they compute.
\<close>

record env =
  lcd_nodeInfo :: "request list \<Rightarrow> error + NodeInfoResponse"
  lcd_get_account :: "request list \<Rightarrow> string \<Rightarrow> error + AccountValue"
  lcd_txsQuery :: "request list \<Rightarrow> string \<Rightarrow> error + SearchTxsResponse"
  lcd_broadcastTx :: "request list \<Rightarrow> json \<Rightarrow> error + BroadcastTxsResponse"
  lcd_get_code :: "request list \<Rightarrow> string \<Rightarrow> error + WasmCodeDetails WasmResponse"
  lcd_get_contract :: "request list \<Rightarrow> string \<Rightarrow> error + ContractInfo option WasmResponse"
  lcd_get_raw :: "request list \<Rightarrow> string \<Rightarrow> error + RawQueryResult WasmResponse"
  fromBase64 :: "string \<Rightarrow> error + Uint8Array"
  fromHex :: "string \<Rightarrow> error + Uint8Array"
  toHex :: "Uint8Array \<Rightarrow> string"
  parseLogs :: "json list \<Rightarrow> error + json list"
  normalizePubkey :: "json \<Rightarrow> error + PubKey option"
  uint64ToNumber :: "json \<Rightarrow> error + number"
  Uint53_fromString :: "string \<Rightarrow> error + number"

section \<open>The client\<close>

record Account =
  address :: string
  balance :: "Coin list"
  pubkey :: "PubKey option"
  accountNumber :: number
  sequence :: number

record GetSequenceResult =
  gs_accountNumber :: number
  gs_sequence :: number

record CodeDetails =
  id :: number
  creator :: string
  checksum :: string
  source :: "string option"
  builder :: "string option"
  data :: Uint8Array

record Contract =
  c_address :: string
  c_codeId :: number
  c_creator :: string
  c_admin :: "string option"
  c_label :: string

text \<open>
  The fields of a \<open>CosmWasmClient\<close>, and \<open>requests\<close>: the requests its \<open>lcdClient\<close>
  has sent, oldest first.
\<close>

record client =
  anyValidAddress :: "string option"
  codesCache :: "number \<rightharpoonup> CodeDetails"
  chainId :: "string option"
  requests :: "request list"

definition newClient :: client where
  "newClient = \<lparr>anyValidAddress = None, codesCache = Map.empty, chainId = None, requests = []\<rparr>"

definition send :: "request \<Rightarrow> client \<Rightarrow> client" where
  "send r c = c\<lparr>requests := requests c @ [r]\<rparr>"

subsection \<open>\<open>txsQuery\<close> and \<open>getTx\<close>\<close>

text \<open>\<open>xs.map(f)\<close> where \<open>f\<close> may throw: the first throw ends the map.\<close>

fun mapE :: "('a \<Rightarrow> error + 'b) \<Rightarrow> 'a list \<Rightarrow> error + 'b list" where
  "mapE f [] = Inr []"
| "mapE f (x # xs) =
     (case f x of
        Inl e \<Rightarrow> Inl e
      | Inr y \<Rightarrow> (case mapE f xs of Inl e \<Rightarrow> Inl e | Inr ys \<Rightarrow> Inr (y # ys)))"

definition toIndexedTx :: "env \<Rightarrow> TxsResponse \<Rightarrow> error + IndexedTx" where
  "toIndexedTx E restItem =
     (case parseLogs E (case r_logs restItem of None \<Rightarrow> [] | Some l \<Rightarrow> l) of
        Inl e \<Rightarrow> Inl e
      | Inr parsed \<Rightarrow>
          Inr \<lparr>height = parseInt10 (r_height restItem),
               hash = r_txhash restItem,
               code = num_or (r_code restItem) (Num 0),
               rawLog = r_raw_log restItem,
               logs = parsed,
               tx = r_tx restItem,
               timestamp = r_timestamp restItem\<rparr>)"

definition txsQuery :: "env \<Rightarrow> string \<Rightarrow> client \<Rightarrow> (error + IndexedTx list) \<times> client" where
  "txsQuery E query c =
     (let limit = 100;
          q = query @ ''&limit='' @ showNat limit;
          c' = send (TxsQuery q) c
      in case lcd_txsQuery E (requests c) q of
           Inl e \<Rightarrow> (Inl e, c')
         | Inr result \<Rightarrow>
             let pages = parseInt10 (page_total result)
             in if num_gt pages (Num 1)
                then (Inl (UnsupportedPaginationError (total_count result)), c')
                else (mapE (toIndexedTx E) (txs result), c'))"

definition getTx :: "env \<Rightarrow> string \<Rightarrow> client \<Rightarrow> (error + IndexedTx option) \<times> client" where
  "getTx E ident c =
     (case txsQuery E (''tx.hash='' @ ident) c of
        (Inl e, c') \<Rightarrow> (Inl e, c')
      | (Inr results, c') \<Rightarrow> (Inr (case results of [] \<Rightarrow> None | x # _ \<Rightarrow> Some x), c'))"

subsection \<open>\<open>searchTx\<close>\<close>

text \<open>
  A query is an object that has \<open>height\<close>, \<open>sentFromOrTo\<close> or \<open>tags\<close>; the client tests
  the three fields in this order.
\<close>

record SearchTxQuery =
  q_height :: "number option"
  q_sentFromOrTo :: "string option"
  q_tags :: "(string \<times> string) list option"

record SearchTxFilter =
  minHeight :: "number option"
  maxHeight :: "number option"

definition isSearchByHeightQuery :: "SearchTxQuery \<Rightarrow> bool" where
  "isSearchByHeightQuery query = (q_height query \<noteq> None)"

definition isSearchBySentFromOrToQuery :: "SearchTxQuery \<Rightarrow> bool" where
  "isSearchBySentFromOrToQuery query = (q_sentFromOrTo query \<noteq> None)"

definition isSearchByTagsQuery :: "SearchTxQuery \<Rightarrow> bool" where
  "isSearchByTagsQuery query = (q_tags query \<noteq> None)"

fun join :: "string \<Rightarrow> string list \<Rightarrow> string" where
  "join sep [] = []"
| "join sep [x] = x"
| "join sep (x # y # ys) = x @ sep @ join sep (y # ys)"

definition withFilters :: "number \<Rightarrow> number \<Rightarrow> string \<Rightarrow> string" where
  "withFilters minH maxH originalQuery =
     originalQuery @ ''&tx.minheight='' @ showNumber minH @ ''&tx.maxheight='' @ showNumber maxH"

text \<open>
  The loop over \<open>sent\<close> and \<open>received\<close>: \<open>sent.shift() && received.shift()\<close> removes
  both heads and is the received one.
\<close>

fun mergeLoop ::
  "IndexedTx list \<Rightarrow> IndexedTx list \<Rightarrow> IndexedTx list
     \<Rightarrow> IndexedTx list \<times> IndexedTx list \<times> IndexedTx list" where
  "mergeLoop mergedTxs (s # sent) (r # received) =
     (if hash s = hash r then mergeLoop (mergedTxs @ [r]) sent received
      else if num_le (height s) (height r) then mergeLoop (mergedTxs @ [s]) sent (r # received)
      else mergeLoop (mergedTxs @ [r]) (s # sent) received)"
| "mergeLoop mergedTxs sent received = (mergedTxs, sent, received)"

definition mergeSentReceived :: "IndexedTx list \<Rightarrow> IndexedTx list \<Rightarrow> IndexedTx list" where
  "mergeSentReceived sent received =
     (case mergeLoop [] sent received of
        (mergedTxs, sent', received') \<Rightarrow> mergedTxs @ sent' @ received')"

definition inRange :: "number \<Rightarrow> number \<Rightarrow> IndexedTx \<Rightarrow> bool" where
  "inRange minH maxH t = (num_ge (height t) minH \<and> num_le (height t) maxH)"

definition sentQuery :: "number \<Rightarrow> number \<Rightarrow> string \<Rightarrow> string" where
  "sentQuery minH maxH a =
     withFilters minH maxH (''message.module=bank&message.sender='' @ a)"

definition receivedQuery :: "number \<Rightarrow> number \<Rightarrow> string \<Rightarrow> string" where
  "receivedQuery minH maxH a =
     withFilters minH maxH (''message.module=bank&transfer.recipient='' @ a)"

text \<open>
  The part of \<open>searchTx\<close> that fetches. \<open>Promise.all\<close> starts both searches before either
  answers, so both requests are sent; when both fail, the error of the first is taken.
\<close>

definition fetchTxs ::
  "env \<Rightarrow> number \<Rightarrow> number \<Rightarrow> SearchTxQuery \<Rightarrow> client \<Rightarrow> (error + IndexedTx list) \<times> client" where
  "fetchTxs E minH maxH query c =
     (if isSearchByHeightQuery query then
        (case q_height query of
           Some h \<Rightarrow>
             if num_lt h minH \<or> num_gt h maxH then (Inr [], c)
             else txsQuery E (''tx.height='' @ showNumber h) c
         | None \<Rightarrow> (Inl UnknownQueryTypeError, c))
      else if isSearchBySentFromOrToQuery query then
        (case q_sentFromOrTo query of
           Some a \<Rightarrow>
                (case txsQuery E (sentQuery minH maxH a) c of
                   (rs, c1) \<Rightarrow>
                     (case txsQuery E (receivedQuery minH maxH a) c1 of
                        (rr, c2) \<Rightarrow>
                          (case rs of
                             Inl e \<Rightarrow> (Inl e, c2)
                           | Inr sent \<Rightarrow>
                               (case rr of
                                  Inl e \<Rightarrow> (Inl e, c2)
                                | Inr received \<Rightarrow> (Inr (mergeSentReceived sent received), c2)))))
         | None \<Rightarrow> (Inl UnknownQueryTypeError, c))
      else if isSearchByTagsQuery query then
        (case q_tags query of
           Some ts \<Rightarrow>
             txsQuery E (withFilters minH maxH (join ''&'' (map (\<lambda>(k, v). k @ ''='' @ v) ts))) c
         | None \<Rightarrow> (Inl UnknownQueryTypeError, c))
      else (Inl UnknownQueryTypeError, c))"

definition searchTx ::
  "env \<Rightarrow> SearchTxQuery \<Rightarrow> SearchTxFilter \<Rightarrow> client \<Rightarrow> (error + IndexedTx list) \<times> client" where
  "searchTx E query flt c =
     (let minH = num_or (minHeight flt) (Num 0);
          maxH = num_or (maxHeight flt) (Num MAX_SAFE_INTEGER)
      in if num_lt maxH minH then (Inr [], c)
         else (case fetchTxs E minH maxH query c of
                 (Inl e, c') \<Rightarrow> (Inl e, c')
               | (Inr found, c') \<Rightarrow> (Inr (filter (inRange minH maxH) found), c')))"

subsection \<open>\<open>getChainId\<close>\<close>








subsection \<open>\<open>getAccount\<close> and \<open>getSequence\<close>\<close>

definition AccountNotFoundError :: error where
  "AccountNotFoundError =
     Error ''Account does not exist on chain. Send some tokens there before trying to query sequence.''"

definition getAccount :: "env \<Rightarrow> string \<Rightarrow> client \<Rightarrow> (error + Account option) \<times> client" where
  "getAccount E addr c =
     (let path = ''/auth/accounts/'' @ addr;
          c' = send (Get path) c
      in case lcd_get_account E (requests c) path of
           Inl e \<Rightarrow> (Inl e, c')
         | Inr v \<Rightarrow>
             if v_address v = [] then (Inr None, c')
             else
               let c'' = c'\<lparr>anyValidAddress := Some (v_address v)\<rparr>
               in (case normalizePubkey E (v_public_key v) of
                     Inl e \<Rightarrow> (Inl e, c'')
                   | Inr pk \<Rightarrow>
                       (case uint64ToNumber E (v_account_number v) of
                          Inl e \<Rightarrow> (Inl e, c'')
                        | Inr an \<Rightarrow>
                            (case uint64ToNumber E (v_sequence v) of
                               Inl e \<Rightarrow> (Inl e, c'')
                             | Inr sq \<Rightarrow>
                                 (Inr (Some \<lparr>address = v_address v, balance = v_coins v,
                                             pubkey = pk, accountNumber = an, sequence = sq\<rparr>),
                                  c'')))))"

definition getSequence ::
  "env \<Rightarrow> string \<Rightarrow> client \<Rightarrow> (error + GetSequenceResult) \<times> client" where
  "getSequence E addr c =
     (case getAccount E addr c of
        (Inl e, c') \<Rightarrow> (Inl e, c')
      | (Inr None, c') \<Rightarrow> (Inl AccountNotFoundError, c')
      | (Inr (Some account), c') \<Rightarrow>
          (Inr \<lparr>gs_accountNumber = accountNumber account, gs_sequence = sequence account\<rparr>, c'))"

subsection \<open>\<open>broadcastTx\<close>\<close>

definition isUpperHexDigit :: "char \<Rightarrow> bool" where
  "isUpperHexDigit c = (c \<in> set ''0123456789ABCDEF'')"

text \<open>The regular expression \<open>/^([0-9A-F][0-9A-F])+$/\<close>, read pair by pair.\<close>

fun matchesHexPairs :: "string \<Rightarrow> bool" where
  "matchesHexPairs (a # b # rest) =
     (isUpperHexDigit a \<and> isUpperHexDigit b \<and> (rest = [] \<or> matchesHexPairs rest))"
| "matchesHexPairs _ = False"

definition IllFormattedTxhashError :: error where
  "IllFormattedTxhashError =
     Error ''Received ill-formatted txhash. Must be non-empty upper-case hex''"

text \<open>
  The two objects \<open>broadcastTx\<close> returns: \<open>{height, transactionHash, code, rawLog}\<close> and
  \<open>{logs, rawLog, transactionHash, data}\<close>.
\<close>

datatype BroadcastTxResult =
    WithCode number string number string
  | WithLogs "json list" string string "Uint8Array option"

definition broadcastTx ::
  "env \<Rightarrow> json \<Rightarrow> client \<Rightarrow> (error + BroadcastTxResult) \<times> client" where
  "broadcastTx E stdTx c =
     (let c' = send (BroadcastTx stdTx) c
      in case lcd_broadcastTx E (requests c) stdTx of
           Inl e \<Rightarrow> (Inl e, c')
         | Inr result \<Rightarrow>
             if \<not> matchesHexPairs (b_txhash result) then (Inl IllFormattedTxhashError, c')
             else
               (case b_code result of
                  Some cd \<Rightarrow>
                    (case Uint53_fromString E (b_height result) of
                       Inl e \<Rightarrow> (Inl e, c')
                     | Inr h \<Rightarrow>
                         (Inr (WithCode h (b_txhash result) cd (str_or (b_raw_log result) [])), c'))
                | None \<Rightarrow>
                    (case str_or_undefined (b_data result) of
                       None \<Rightarrow>
                         (Inr (WithLogs (case b_logs result of None \<Rightarrow> [] | Some l \<Rightarrow> l)
                                 (str_or (b_raw_log result) []) (b_txhash result) None), c')
                     | Some d \<Rightarrow>
                         (case fromHex E d of
                            Inl e \<Rightarrow> (Inl e, c')
                          | Inr bytes \<Rightarrow>
                              (Inr (WithLogs (case b_logs result of None \<Rightarrow> [] | Some l \<Rightarrow> l)
                                      (str_or (b_raw_log result) []) (b_txhash result)
                                      (Some bytes)), c')))))"

subsection \<open>The wasm extension (\<open>lcdapi/wasm.ts\<close>)\<close>

fun unwrapWasmResponse :: "'a WasmResponse \<Rightarrow> error + 'a" where
  "unwrapWasmResponse (WasmError e) = Inl (Error e)"
| "unwrapWasmResponse (WasmSuccess h r) = Inr r"


definition wasm_getContractInfo ::
  "env \<Rightarrow> string \<Rightarrow> client \<Rightarrow> (error + ContractInfo option) \<times> client" where
  "wasm_getContractInfo E addr c =
     (let path = ''/wasm/contract/'' @ addr;
          c' = send (Get path) c
      in case lcd_get_contract E (requests c) path of
           Inl e \<Rightarrow> (Inl e, c')
         | Inr response \<Rightarrow> (unwrapWasmResponse response, c'))"

text \<open>
  The bytes at a key, \<open>None\<close> for \<open>null\<close>: the array is the CosmWasm 0.10 interface, the
  string or \<open>null\<close> the 0.11 one, where \<open>!data\<close> holds of \<open>null\<close> and of the empty string.
\<close>

definition decodeRaw :: "env \<Rightarrow> RawQueryResult \<Rightarrow> error + Uint8Array option" where
  "decodeRaw E d =
     (case d of
        RawArray xs \<Rightarrow>
          (case xs of
             [] \<Rightarrow> Inr None
           | x # _ \<Rightarrow> (case fromBase64 E (val x) of Inl e \<Rightarrow> Inl e | Inr b \<Rightarrow> Inr (Some b)))
      | RawNull \<Rightarrow> Inr None
      | RawString s \<Rightarrow>
          if s = [] then Inr None
          else (case fromBase64 E s of Inl e \<Rightarrow> Inl e | Inr b \<Rightarrow> Inr (Some b)))"

definition wasm_queryContractRaw ::
  "env \<Rightarrow> string \<Rightarrow> Uint8Array \<Rightarrow> client \<Rightarrow> (error + Uint8Array option) \<times> client" where
  "wasm_queryContractRaw E addr k c =
     (let hexKey = toHex E k;
          path = ''/wasm/contract/'' @ addr @ ''/raw/'' @ hexKey @ ''?encoding=hex'';
          c' = send (Get path) c
      in case lcd_get_raw E (requests c) path of
           Inl e \<Rightarrow> (Inl e, c')
         | Inr responseData \<Rightarrow>
             (case unwrapWasmResponse responseData of
                Inl e \<Rightarrow> (Inl e, c')
              | Inr d \<Rightarrow> (decodeRaw E d, c')))"

subsection \<open>\<open>getCodeDetails\<close>, \<open>getContract\<close> and \<open>queryContractRaw\<close>\<close>


definition NoContractFoundError :: "string \<Rightarrow> error" where
  "NoContractFoundError addr =
     Error (''No contract found at address '' @ [CHR 0x22] @ addr @ [CHR 0x22])"

definition getContract :: "env \<Rightarrow> string \<Rightarrow> client \<Rightarrow> (error + Contract) \<times> client" where
  "getContract E addr c =
     (case wasm_getContractInfo E addr c of
        (Inl e, c') \<Rightarrow> (Inl e, c')
      | (Inr None, c') \<Rightarrow> (Inl (NoContractFoundError addr), c')
      | (Inr (Some result), c') \<Rightarrow>
          (Inr \<lparr>c_address = i_address result, c_codeId = i_code_id result,
                c_creator = i_creator result, c_admin = i_admin result,
                c_label = i_label result\<rparr>, c'))"

definition queryContractRaw ::
  "env \<Rightarrow> string \<Rightarrow> Uint8Array \<Rightarrow> client \<Rightarrow> (error + Uint8Array option) \<times> client" where
  "queryContractRaw E addr k c =
     (case getContract E addr c of
        (Inl e, c') \<Rightarrow> (Inl e, c')
      | (Inr _, c') \<Rightarrow> wasm_queryContractRaw E addr k c')"

subsection \<open>Sequences of calls on one instance\<close>




section \<open>Notions used in the properties\<close>

definition height_le :: "IndexedTx \<Rightarrow> IndexedTx \<Rightarrow> bool" where
  "height_le a b = num_le (height a) (height b)"

text \<open>A list of transactions is ascending by height: every height is a number, none
  is above a later one.\<close>

definition ascendingByHeight :: "IndexedTx list \<Rightarrow> bool" where
  "ascendingByHeight xs = (list_all (\<lambda>t. height t \<noteq> NaN) xs \<and> sorted_wrt height_le xs)"

text \<open>Strictly ascending: at most one transaction per height.\<close>

definition strictlyAscendingByHeight :: "IndexedTx list \<Rightarrow> bool" where
  "strictlyAscendingByHeight xs =
     sorted_wrt (\<lambda>a b. num_lt (height a) (height b)) xs"

text \<open>A hash names one transaction: wherever it occurs in the two lists, the height
  is the same.\<close>

definition sameHashSameHeight :: "IndexedTx list \<Rightarrow> IndexedTx list \<Rightarrow> bool" where
  "sameHashSameHeight S R =
     list_all (\<lambda>s. list_all (\<lambda>r. hash s \<noteq> hash r \<or> height s = height r) R) S"

definition sharedHashes :: "IndexedTx list \<Rightarrow> IndexedTx list \<Rightarrow> string set" where
  "sharedHashes S R = hash ` set S \<inter> hash ` set R"

text \<open>
  The bounds of a filter as the specification words them: only an unspecified bound
  takes the default.
\<close>

definition specMinHeight :: "SearchTxFilter \<Rightarrow> number" where
  "specMinHeight flt = (case minHeight flt of None \<Rightarrow> Num 0 | Some v \<Rightarrow> v)"

definition specMaxHeight :: "SearchTxFilter \<Rightarrow> number" where
  "specMaxHeight flt = (case maxHeight flt of None \<Rightarrow> Num MAX_SAFE_INTEGER | Some v \<Rightarrow> v)"

text \<open>The bounds \<open>searchTx\<close> computes.\<close>

definition effectiveMinHeight :: "SearchTxFilter \<Rightarrow> number" where
  "effectiveMinHeight flt = num_or (minHeight flt) (Num 0)"

definition effectiveMaxHeight :: "SearchTxFilter \<Rightarrow> number" where
  "effectiveMaxHeight flt = num_or (maxHeight flt) (Num MAX_SAFE_INTEGER)"

text \<open>
  A transaction hash as the specification words it: non-empty, of even length, upper-case
  hexadecimal.
\<close>

definition strictHex :: "string \<Rightarrow> bool" where
  "strictHex s = (s \<noteq> [] \<and> even (length s) \<and> list_all isUpperHexDigit s)"

text \<open>The response to a search reports more than one page.\<close>

definition morePages :: "SearchTxsResponse \<Rightarrow> bool" where
  "morePages r = num_gt (parseInt10 (page_total r)) (Num 1)"

text \<open>
  Every request of \<open>new\<close>, sent in this order after \<open>sentBefore\<close>, is a search that the
  backend answered with at most one page.
\<close>

fun answeredInOnePage :: "env \<Rightarrow> request list \<Rightarrow> request list \<Rightarrow> bool" where
  "answeredInOnePage E sentBefore [] = True"
| "answeredInOnePage E sentBefore (x # new) =
     ((case x of
         TxsQuery q \<Rightarrow>
           (case lcd_txsQuery E sentBefore q of Inl e \<Rightarrow> False | Inr r \<Rightarrow> \<not> morePages r)
       | _ \<Rightarrow> False)
      \<and> answeredInOnePage E (sentBefore @ [x]) new)"

definition nodeInfoRequests :: "client \<Rightarrow> nat" where
  "nodeInfoRequests c = length (filter (\<lambda>r. r = NodeInfo) (requests c))"

definition isWithCode :: "BroadcastTxResult \<Rightarrow> bool" where
  "isWithCode out = (case out of WithCode h t cd l \<Rightarrow> True | WithLogs ls l t d \<Rightarrow> False)"

text \<open>
  A later state of a client that has the chain id and the code cache of an earlier one
  and has sent no further node-info request.
\<close>

definition keepsCaches :: "client \<Rightarrow> client \<Rightarrow> bool" where
  "keepsCaches c c' =
     (chainId c' = chainId c \<and> codesCache c' = codesCache c
      \<and> nodeInfoRequests c' = nodeInfoRequests c)"

section \<open>Example inputs\<close>

definition exampleTx :: "int \<Rightarrow> string \<Rightarrow> IndexedTx" where
  "exampleTx h x =
     \<lparr>height = Num h, hash = x, code = Num 0, rawLog = [], logs = [], tx = [],
      timestamp = []\<rparr>"

definition exampleItem :: "string \<Rightarrow> string \<Rightarrow> TxsResponse" where
  "exampleItem h x =
     \<lparr>r_height = h, r_txhash = x, r_code = None, r_raw_log = [], r_logs = None, r_tx = [],
      r_timestamp = []\<rparr>"

definition onePage :: "TxsResponse list \<Rightarrow> SearchTxsResponse" where
  "onePage items = \<lparr>total_count = showNat (length items), page_total = ''1'', txs = items\<rparr>"

text \<open>
  An environment whose backend answers no request and whose library functions accept
  what they are given; the examples replace single endpoints.
\<close>

definition unreachable :: error where
  "unreachable = Error ''Network Error''"

definition baseEnv :: env where
  "baseEnv =
     \<lparr>lcd_nodeInfo = (\<lambda>sentBefore. Inl unreachable),
      lcd_get_account = (\<lambda>sentBefore path. Inl unreachable),
      lcd_txsQuery = (\<lambda>sentBefore q. Inl unreachable),
      lcd_broadcastTx = (\<lambda>sentBefore t. Inl unreachable),
      lcd_get_code = (\<lambda>sentBefore path. Inl unreachable),
      lcd_get_contract = (\<lambda>sentBefore path. Inl unreachable),
      lcd_get_raw = (\<lambda>sentBefore path. Inl unreachable),
      fromBase64 = (\<lambda>s. Inr (map of_char s)),
      fromHex = (\<lambda>s. Inr (map of_char s)),
      toHex = (\<lambda>b. map (\<lambda>w. char_of (unat w)) b),
      parseLogs = Inr,
      normalizePubkey = (\<lambda>j. Inr None),
      uint64ToNumber = (\<lambda>j. Inr (parseInt10 j)),
      Uint53_fromString = (\<lambda>s. Inr (parseInt10 s))\<rparr>"

definition bySender :: SearchTxQuery where
  "bySender = \<lparr>q_height = None, q_sentFromOrTo = Some ''orai1'', q_tags = None\<rparr>"

definition byHeight :: "int \<Rightarrow> SearchTxQuery" where
  "byHeight h = \<lparr>q_height = Some (Num h), q_sentFromOrTo = None, q_tags = None\<rparr>"

definition noFilter :: SearchTxFilter where
  "noFilter = \<lparr>minHeight = None, maxHeight = None\<rparr>"

text \<open>A backend that answers the first search it receives with \<open>sent\<close> and every
  later one with \<open>received\<close>, each on one page.\<close>

definition bankEnv :: "TxsResponse list \<Rightarrow> TxsResponse list \<Rightarrow> env" where
  "bankEnv sent received =
     baseEnv\<lparr>lcd_txsQuery :=
       (\<lambda>sentBefore q. if sentBefore = [] then Inr (onePage sent) else Inr (onePage received))\<rparr>"

text \<open>A backend that answers every search with the same response.\<close>

definition searchEnv :: "SearchTxsResponse \<Rightarrow> env" where
  "searchEnv r = baseEnv\<lparr>lcd_txsQuery := (\<lambda>sentBefore q. Inr r)\<rparr>"

text \<open>A backend that answers every broadcast with the same response.\<close>

definition broadcastEnv :: "BroadcastTxsResponse \<Rightarrow> env" where
  "broadcastEnv r = baseEnv\<lparr>lcd_broadcastTx := (\<lambda>sentBefore t. Inr r)\<rparr>"

definition exampleBroadcast :: "string \<Rightarrow> number option \<Rightarrow> BroadcastTxsResponse" where
  "exampleBroadcast h cd =
     \<lparr>b_height = ''12'', b_txhash = h, b_code = cd, b_raw_log = None, b_logs = None,
      b_data = None\<rparr>"

text \<open>A backend that answers every account lookup with the same record.\<close>

definition accountEnv :: "AccountValue \<Rightarrow> env" where
  "accountEnv v = baseEnv\<lparr>lcd_get_account := (\<lambda>sentBefore path. Inr v)\<rparr>"

definition exampleAccountValue :: "string \<Rightarrow> AccountValue" where
  "exampleAccountValue a =
     \<lparr>v_address = a, v_coins = [], v_public_key = ''null'', v_account_number = ''7'',
      v_sequence = ''3''\<rparr>"







text \<open>A backend with one contract that answers every raw query with the same result.\<close>

definition exampleContract :: ContractInfo where
  "exampleContract =
     \<lparr>i_address = ''orai1c'', i_code_id = Num 1, i_creator = ''orai1'', i_admin = None,
      i_label = ''hackatom''\<rparr>"

definition contractEnv :: "RawQueryResult \<Rightarrow> env" where
  "contractEnv d =
     baseEnv\<lparr>lcd_get_contract := (\<lambda>sentBefore path. Inr (WasmSuccess ''1'' (Some exampleContract))),
             lcd_get_raw := (\<lambda>sentBefore path. Inr (WasmSuccess ''1'' d))\<rparr>"

section \<open>Properties\<close>

subsection \<open>Numbers and strings\<close>

lemma showNat_100: "showNat 100 = ''100''"
  by code_simp

lemma num_le_trans: "num_le a b \<Longrightarrow> num_le b c \<Longrightarrow> num_le a c"
  by (cases a; cases b; cases c) auto

lemma num_le_total: "a \<noteq> NaN \<Longrightarrow> b \<noteq> NaN \<Longrightarrow> \<not> num_le a b \<Longrightarrow> num_le b a"
  by (cases a; cases b) auto

lemma num_lt_not_le: "a \<noteq> NaN \<Longrightarrow> b \<noteq> NaN \<Longrightarrow> \<not> num_le a b \<Longrightarrow> num_lt b a"
  by (cases a; cases b) auto

lemma inRange_empty: "num_lt maxH minH \<Longrightarrow> \<not> inRange minH maxH t"
  by (cases maxH; cases minH; cases "height t") (auto simp: inRange_def num_ge_def)

lemma inRange_height: "height a = height b \<Longrightarrow> inRange minH maxH a = inRange minH maxH b"
  by (simp add: inRange_def)

subsection \<open>The merge loop\<close>

lemma merge_induct [case_names sentEmpty receivedEmpty step]:
  fixes P :: "IndexedTx list \<Rightarrow> IndexedTx list \<Rightarrow> bool"
  assumes "\<And>R. P [] R" and "\<And>S. P S []"
    and "\<And>s S r R.
          (hash s = hash r \<Longrightarrow> P S R) \<Longrightarrow>
          (hash s \<noteq> hash r \<Longrightarrow> num_le (height s) (height r) \<Longrightarrow> P S (r # R)) \<Longrightarrow>
          (hash s \<noteq> hash r \<Longrightarrow> \<not> num_le (height s) (height r) \<Longrightarrow> P (s # S) R) \<Longrightarrow>
          P (s # S) (r # R)"
  shows "P S R"
proof -
  have "P S R" if "acc = acc" for acc :: "IndexedTx list"
    using that
    by (induction acc S R rule: mergeLoop.induct) (auto intro: assms)
  then show ?thesis by simp
qed

lemma mergeLoop_acc:
  "mergeLoop acc S R = (acc @ fst (mergeLoop [] S R), snd (mergeLoop [] S R))"
proof (induction S R arbitrary: acc rule: merge_induct)
  case (step s S r R)
  show ?case
    using step(1)[of "acc @ [r]"] step(1)[of "[r]"]
      step(2)[of "acc @ [s]"] step(2)[of "[s]"]
      step(3)[of "acc @ [r]"] step(3)[of "[r]"]
    by simp
qed simp_all

lemma mergeSentReceived_Nil [simp]:
  "mergeSentReceived [] R = R" "mergeSentReceived S [] = S"
  by (cases S; simp add: mergeSentReceived_def)+

lemma mergeSentReceived_Cons:
  "mergeSentReceived (s # S) (r # R) =
     (if hash s = hash r then r # mergeSentReceived S R
      else if num_le (height s) (height r) then s # mergeSentReceived S (r # R)
      else r # mergeSentReceived (s # S) R)"
  using mergeLoop_acc[of "[r]" S R] mergeLoop_acc[of "[s]" S "r # R"]
    mergeLoop_acc[of "[r]" "s # S" R]
  by (simp add: mergeSentReceived_def split: prod.splits)

lemma set_mergeSentReceived: "set (mergeSentReceived S R) \<subseteq> set S \<union> set R"
  by (induction S R rule: merge_induct) (auto simp: mergeSentReceived_Cons)

lemma subseq_received: "subseq R (mergeSentReceived S R)"
  by (induction S R rule: merge_induct) (auto simp: mergeSentReceived_Cons)

lemma sameHashSameHeight_iff:
  "sameHashSameHeight S R \<longleftrightarrow> (\<forall>s\<in>set S. \<forall>r\<in>set R. hash s = hash r \<longrightarrow> height s = height r)"
  unfolding sameHashSameHeight_def list_all_iff by blast

lemma subseq_sent_hashes_inRange:
  assumes "\<forall>s\<in>set S. \<forall>r\<in>set R. hash s = hash r \<longrightarrow> height s = height r"
  shows "subseq (map hash (filter (inRange lo hi) S))
           (map hash (filter (inRange lo hi) (mergeSentReceived S R)))"
  using assms
proof (induction S R rule: merge_induct)
  case (sentEmpty R)
  show ?case by simp
next
  case (receivedEmpty S)
  show ?case by simp
next
  case (step s S r R)
  let ?Q = "inRange lo hi"
  show ?case
  proof (cases "hash s = hash r")
    case True
    then have "height s = height r" using step.prems by simp
    then have q: "?Q s = ?Q r" by (rule inRange_height)
    have c: "\<forall>s\<in>set S. \<forall>r\<in>set R. hash s = hash r \<longrightarrow> height s = height r"
      using step.prems by simp
    have ih: "subseq (map hash (filter ?Q S)) (map hash (filter ?Q (mergeSentReceived S R)))"
      by (rule step.IH(1)[OF True c])
    have eq: "mergeSentReceived (s # S) (r # R) = r # mergeSentReceived S R"
      using True by (simp add: mergeSentReceived_Cons)
    show ?thesis
    proof (cases "?Q r")
      case True
      with q ih \<open>hash s = hash r\<close> show ?thesis unfolding eq by simp
    next
      case False
      with q ih show ?thesis unfolding eq by simp
    qed
  next
    case False
    show ?thesis
    proof (cases "num_le (height s) (height r)")
      case le: True
      have c: "\<forall>s\<in>set S. \<forall>r\<in>set (r # R). hash s = hash r \<longrightarrow> height s = height r"
        using step.prems by simp
      have ih: "subseq (map hash (filter ?Q S))
           (map hash (filter ?Q (mergeSentReceived S (r # R))))"
        by (rule step.IH(2)[OF False le c])
      have eq: "mergeSentReceived (s # S) (r # R) = s # mergeSentReceived S (r # R)"
        using False le by (simp add: mergeSentReceived_Cons)
      show ?thesis unfolding eq using ih by (cases "?Q s") simp_all
    next
      case nle: False
      have c: "\<forall>s\<in>set (s # S). \<forall>r\<in>set R. hash s = hash r \<longrightarrow> height s = height r"
        using step.prems by simp
      have ih: "subseq (map hash (filter ?Q (s # S)))
           (map hash (filter ?Q (mergeSentReceived (s # S) R)))"
        by (rule step.IH(3)[OF False nle c])
      have eq: "mergeSentReceived (s # S) (r # R) = r # mergeSentReceived (s # S) R"
        using False nle by (simp add: mergeSentReceived_Cons)
      have "subseq (map hash (filter ?Q (s # S)))
           (map hash (filter ?Q (r # mergeSentReceived (s # S) R)))"
      proof (cases "?Q r")
        case True
        then have "map hash (filter ?Q (r # mergeSentReceived (s # S) R)) =
            hash r # map hash (filter ?Q (mergeSentReceived (s # S) R))" by simp
        then show ?thesis using list_emb_Cons[OF ih, of "hash r"] by (simp only:)
      next
        case False
        then have "filter ?Q (r # mergeSentReceived (s # S) R) =
            filter ?Q (mergeSentReceived (s # S) R)" by simp
        then show ?thesis using ih by (simp only:)
      qed
      then show ?thesis unfolding eq .
    qed
  qed
qed

lemma noNaN_merge:
  "list_all (\<lambda>t. height t \<noteq> NaN) S \<Longrightarrow> list_all (\<lambda>t. height t \<noteq> NaN) R
     \<Longrightarrow> list_all (\<lambda>t. height t \<noteq> NaN) (mergeSentReceived S R)"
  using set_mergeSentReceived[of S R] unfolding list_all_iff by blast

lemma height_le_merge:
  assumes "\<forall>y\<in>set S. height_le x y" "\<forall>y\<in>set R. height_le x y"
  shows "\<forall>y\<in>set (mergeSentReceived S R). height_le x y"
  using set_mergeSentReceived[of S R] assms by blast

lemma sorted_merge:
  assumes "ascendingByHeight S" "ascendingByHeight R"
    and "\<forall>s\<in>set S. \<forall>r\<in>set R. hash s = hash r \<longrightarrow> height s = height r"
  shows "sorted_wrt height_le (mergeSentReceived S R)"
  using assms
proof (induction S R rule: merge_induct)
  case (sentEmpty R)
  then show ?case by (simp add: ascendingByHeight_def)
next
  case (receivedEmpty S)
  then show ?case by (simp add: ascendingByHeight_def)
next
  case (step s S r R)
  have aS: "ascendingByHeight S" and aR: "ascendingByHeight R"
    using step.prems(1,2) by (simp_all add: ascendingByHeight_def)
  have sS: "\<forall>y\<in>set S. height_le s y" and rR: "\<forall>y\<in>set R. height_le r y"
    using step.prems(1,2) by (simp_all add: ascendingByHeight_def)
  have ns: "height s \<noteq> NaN" and nr: "height r \<noteq> NaN"
    using step.prems(1,2) by (simp_all add: ascendingByHeight_def)
  show ?case
  proof (cases "hash s = hash r")
    case True
    then have h: "height s = height r" using step.prems(3) by simp
    have c: "\<forall>s\<in>set S. \<forall>r\<in>set R. hash s = hash r \<longrightarrow> height s = height r"
      using step.prems(3) by simp
    have "\<forall>y\<in>set S. height_le r y" using sS h by (simp add: height_le_def)
    then have "\<forall>y\<in>set (mergeSentReceived S R). height_le r y"
      using rR by (rule height_le_merge)
    then show ?thesis
      using True step.IH(1)[OF True aS aR c] by (simp add: mergeSentReceived_Cons)
  next
    case False
    show ?thesis
    proof (cases "num_le (height s) (height r)")
      case le: True
      have c: "\<forall>s\<in>set S. \<forall>r\<in>set (r # R). hash s = hash r \<longrightarrow> height s = height r"
        using step.prems(3) by simp
      have "\<forall>y\<in>set (r # R). height_le s y"
        using rR le by (auto simp: height_le_def intro: num_le_trans)
      with sS have "\<forall>y\<in>set (mergeSentReceived S (r # R)). height_le s y"
        by (rule height_le_merge)
      then show ?thesis
        using False le step.IH(2)[OF False le aS step.prems(2) c]
        by (simp add: mergeSentReceived_Cons)
    next
      case nle: False
      have rs: "num_le (height r) (height s)"
        using nle ns nr by (rule num_le_total[rotated 2])
      have c: "\<forall>s\<in>set (s # S). \<forall>r\<in>set R. hash s = hash r \<longrightarrow> height s = height r"
        using step.prems(3) by simp
      have "\<forall>y\<in>set (s # S). height_le r y"
        using sS rs by (auto simp: height_le_def intro: num_le_trans)
      then have "\<forall>y\<in>set (mergeSentReceived (s # S) R). height_le r y"
        using rR by (rule height_le_merge)
      then show ?thesis
        using False nle step.IH(3)[OF False nle step.prems(1) aR c]
        by (simp add: mergeSentReceived_Cons)
    qed
  qed
qed

lemma ascending_merge:
  assumes "ascendingByHeight S" "ascendingByHeight R" "sameHashSameHeight S R"
  shows "ascendingByHeight (mergeSentReceived S R)"
  using assms sorted_merge[of S R] noNaN_merge[of S R]
  by (simp add: ascendingByHeight_def sameHashSameHeight_iff)

lemma ascending_filter: "ascendingByHeight xs \<Longrightarrow> ascendingByHeight (filter P xs)"
  by (simp add: ascendingByHeight_def sorted_wrt_filter list_all_iff)

text \<open>Without a shared hash the loop is a stable merge.\<close>

lemma filter_height_above:
  assumes "\<forall>y\<in>set S. num_lt (height r) (height y)"
  shows "filter (\<lambda>t. height t = height r) S = []"
proof -
  have "height y \<noteq> height r" if "y \<in> set S" for y
    using assms that by (cases "height r"; cases "height y") auto
  then show ?thesis by (simp add: filter_empty_conv)
qed

lemma stable_merge:
  assumes "ascendingByHeight S" "ascendingByHeight R"
    and "\<forall>s\<in>set S. \<forall>r\<in>set R. hash s \<noteq> hash r"
  shows "filter (\<lambda>t. height t = h) (mergeSentReceived S R) =
         filter (\<lambda>t. height t = h) S @ filter (\<lambda>t. height t = h) R"
  using assms
proof (induction S R rule: merge_induct)
  case (step s S r R)
  have aS: "ascendingByHeight S" and aR: "ascendingByHeight R"
    using step.prems(1,2) by (simp_all add: ascendingByHeight_def)
  have sS: "\<forall>y\<in>set S. height_le s y"
    using step.prems(1) by (simp add: ascendingByHeight_def)
  have ns: "height s \<noteq> NaN" and nr: "height r \<noteq> NaN"
    using step.prems(1,2) by (simp_all add: ascendingByHeight_def)
  have ne: "hash s \<noteq> hash r" using step.prems(3) by simp
  show ?case
  proof (cases "num_le (height s) (height r)")
    case le: True
    have "\<forall>s\<in>set S. \<forall>r\<in>set (r # R). hash s \<noteq> hash r" using step.prems(3) by simp
    from step.IH(2)[OF ne le aS step.prems(2) this] ne le
    show ?thesis by (simp add: mergeSentReceived_Cons)
  next
    case nle: False
    have c: "\<forall>s\<in>set (s # S). \<forall>r\<in>set R. hash s \<noteq> hash r" using step.prems(3) by simp
    have rs: "num_lt (height r) (height s)"
      using nle ns nr by (rule num_lt_not_le[rotated 2])
    have above: "\<forall>y\<in>set (s # S). num_lt (height r) (height y)"
    proof
      fix y assume "y \<in> set (s # S)"
      then have "num_le (height s) (height y) \<or> y = s"
        using sS by (auto simp: height_le_def)
      then show "num_lt (height r) (height y)"
        using rs by (cases "height r"; cases "height s"; cases "height y") auto
    qed
    have eq: "mergeSentReceived (s # S) (r # R) = r # mergeSentReceived (s # S) R"
      using ne nle by (simp add: mergeSentReceived_Cons)
    have ih: "filter (\<lambda>t. height t = h) (mergeSentReceived (s # S) R) =
         filter (\<lambda>t. height t = h) (s # S) @ filter (\<lambda>t. height t = h) R"
      by (rule step.IH(3)[OF ne nle step.prems(1) aR c])
    show ?thesis
    proof (cases "height r = h")
      case True
      have e: "filter (\<lambda>t. height t = h) (s # S) = []"
        using filter_height_above[OF above] True by simp
      have "filter (\<lambda>t. height t = h) (r # mergeSentReceived (s # S) R) =
            r # filter (\<lambda>t. height t = h) (mergeSentReceived (s # S) R)"
        using True by simp
      also have "\<dots> = r # filter (\<lambda>t. height t = h) R"
        unfolding ih e by simp
      also have "\<dots> = filter (\<lambda>t. height t = h) (s # S) @ filter (\<lambda>t. height t = h) (r # R)"
        unfolding e using True by simp
      finally show ?thesis unfolding eq .
    next
      case False
      have "filter (\<lambda>t. height t = h) (r # mergeSentReceived (s # S) R) =
            filter (\<lambda>t. height t = h) (mergeSentReceived (s # S) R)"
        using False by simp
      also have "\<dots> = filter (\<lambda>t. height t = h) (s # S) @ filter (\<lambda>t. height t = h) (r # R)"
        unfolding ih using False by simp
      finally show ?thesis unfolding eq .
    qed
  qed
qed simp_all

text \<open>
  What the loop does achieve: when no two entries of a list share a height, every
  shared transaction is at both heads at the same time, and the result lists each hash
  once.
\<close>

lemma hashes_mergeSentReceived:
  "hash ` set (mergeSentReceived S R) = hash ` set S \<union> hash ` set R"
  by (induction S R rule: merge_induct) (auto simp: mergeSentReceived_Cons)

lemma num_lt_le_trans: "num_lt a b \<Longrightarrow> num_le c a \<Longrightarrow> num_lt c b"
  by (cases a; cases b; cases c) auto

lemma num_lt_trans: "num_lt a b \<Longrightarrow> num_lt c a \<Longrightarrow> num_lt c b"
  by (cases a; cases b; cases c) auto

lemma num_lt_irrefl: "\<not> num_lt a a"
  by (cases a) auto

lemma distinct_hashes_merge_strict:
  assumes "ascendingByHeight S" "ascendingByHeight R"
    and "strictlyAscendingByHeight S" "strictlyAscendingByHeight R"
    and "distinct (map hash S)" "distinct (map hash R)"
    and "\<forall>s\<in>set S. \<forall>r\<in>set R. hash s = hash r \<longrightarrow> height s = height r"
  shows "distinct (map hash (mergeSentReceived S R))"
  using assms
proof (induction S R rule: merge_induct)
  case (sentEmpty R)
  then show ?case by simp
next
  case (receivedEmpty S)
  then show ?case by simp
next
  case (step s S r R)
  have aS: "ascendingByHeight S" and aR: "ascendingByHeight R"
    using step.prems(1,2) by (simp_all add: ascendingByHeight_def)
  have tS: "strictlyAscendingByHeight S" and tR: "strictlyAscendingByHeight R"
    using step.prems(3,4) by (simp_all add: strictlyAscendingByHeight_def)
  have sS: "\<forall>y\<in>set S. num_lt (height s) (height y)"
    and rR: "\<forall>y\<in>set R. num_lt (height r) (height y)"
    using step.prems(3,4) by (simp_all add: strictlyAscendingByHeight_def)
  have dS: "distinct (map hash S)" and dR: "distinct (map hash R)"
    and nS: "hash s \<notin> hash ` set S" and nR: "hash r \<notin> hash ` set R"
    using step.prems(5,6) by simp_all
  have ns: "height s \<noteq> NaN" and nr: "height r \<noteq> NaN"
    using step.prems(1,2) by (simp_all add: ascendingByHeight_def)
  have cS: "\<forall>y\<in>set S. hash y = hash r \<longrightarrow> height y = height r"
    and cR: "\<forall>y\<in>set R. hash s = hash y \<longrightarrow> height s = height y"
    and c: "\<forall>s\<in>set S. \<forall>r\<in>set R. hash s = hash r \<longrightarrow> height s = height r"
    using step.prems(7) by simp_all
  show ?case
  proof (cases "hash s = hash r")
    case True
    have "hash r \<notin> hash ` set (mergeSentReceived S R)"
      using nS nR True by (simp add: hashes_mergeSentReceived)
    moreover have "distinct (map hash (mergeSentReceived S R))"
      by (rule step.IH(1)[OF True aS aR tS tR dS dR c])
    ultimately show ?thesis using True by (simp add: mergeSentReceived_Cons)
  next
    case False
    show ?thesis
    proof (cases "num_le (height s) (height r)")
      case le: True
      have "hash s \<notin> hash ` set R"
      proof
        assume "hash s \<in> hash ` set R"
        then obtain y where y: "y \<in> set R" "hash s = hash y" by auto
        then have "height s = height y" using cR by blast
        moreover have "num_lt (height s) (height y)"
          using rR y(1) le by (blast intro: num_lt_le_trans)
        ultimately show False by (simp add: num_lt_irrefl)
      qed
      then have "hash s \<notin> hash ` set (mergeSentReceived S (r # R))"
        using nS False by (simp add: hashes_mergeSentReceived)
      moreover have c': "\<forall>s\<in>set S. \<forall>r\<in>set (r # R). hash s = hash r \<longrightarrow> height s = height r"
        using step.prems(7) by simp
      have "distinct (map hash (mergeSentReceived S (r # R)))"
        by (rule step.IH(2)[OF False le aS step.prems(2) tS step.prems(4) dS step.prems(6) c'])
      ultimately show ?thesis using False le by (simp add: mergeSentReceived_Cons)
    next
      case nle: False
      have rs: "num_lt (height r) (height s)"
        using nle ns nr by (rule num_lt_not_le[rotated 2])
      have "hash r \<notin> hash ` set S"
      proof
        assume "hash r \<in> hash ` set S"
        then obtain y where y: "y \<in> set S" "hash y = hash r" by auto
        then have "height y = height r" using cS by blast
        moreover have "num_lt (height r) (height y)"
          using sS y(1) rs by (blast intro: num_lt_trans)
        ultimately show False by (simp add: num_lt_irrefl)
      qed
      then have "hash r \<notin> hash ` set (mergeSentReceived (s # S) R)"
        using nR False by (simp add: hashes_mergeSentReceived)
      moreover have c': "\<forall>s\<in>set (s # S). \<forall>r\<in>set R. hash s = hash r \<longrightarrow> height s = height r"
        using step.prems(7) by simp
      have "distinct (map hash (mergeSentReceived (s # S) R))"
        by (rule step.IH(3)[OF False nle step.prems(1) aR step.prems(3) tR step.prems(5) dR c'])
      ultimately show ?thesis using False nle by (simp add: mergeSentReceived_Cons)
    qed
  qed
qed

lemma length_merge_strict:
  assumes "ascendingByHeight S" "ascendingByHeight R"
    and "strictlyAscendingByHeight S" "strictlyAscendingByHeight R"
    and "distinct (map hash S)" "distinct (map hash R)"
    and "sameHashSameHeight S R"
  shows "length (mergeSentReceived S R) + card (sharedHashes S R) = length S + length R"
proof -
  let ?M = "mergeSentReceived S R"
  have "distinct (map hash ?M)"
    using assms by (intro distinct_hashes_merge_strict) (simp_all add: sameHashSameHeight_iff)
  then have "length ?M = card (hash ` set ?M)"
    using distinct_card[of "map hash ?M"] by simp
  also have "\<dots> = card (hash ` set S \<union> hash ` set R)"
    by (simp add: hashes_mergeSentReceived)
  finally have 1: "length ?M = card (hash ` set S \<union> hash ` set R)" .
  have 2: "card (hash ` set S) = length S" "card (hash ` set R) = length R"
    using assms(5,6) distinct_card[of "map hash S"] distinct_card[of "map hash R"] by simp_all
  have "card (hash ` set S) + card (hash ` set R)
      = card (hash ` set S \<union> hash ` set R) + card (hash ` set S \<inter> hash ` set R)"
    by (intro card_Un_Int) simp_all
  then show ?thesis using 1 2 by (simp add: sharedHashes_def)
qed

subsection \<open>\<open>txsQuery\<close>\<close>

lemma txsQuery_snd: "snd (txsQuery E q c) = send (TxsQuery (q @ ''&limit=100'')) c"
  by (simp add: txsQuery_def Let_def showNat_100 split: sum.splits)

lemma txsQuery_fst:
  "fst (txsQuery E q c) =
     (case lcd_txsQuery E (requests c) (q @ ''&limit=100'') of
        Inl e \<Rightarrow> Inl e
      | Inr r \<Rightarrow> if morePages r then Inl (UnsupportedPaginationError (total_count r))
                 else mapE (toIndexedTx E) (txs r))"
  by (simp add: txsQuery_def Let_def showNat_100 morePages_def split: sum.splits)

lemma txsQuery_Inl_UnsupportedPagination:
  assumes "lcd_txsQuery E (requests c) (q @ ''&limit=100'') = Inr r" and "morePages r"
  shows "fst (txsQuery E q c) = Inl (UnsupportedPaginationError (total_count r))"
  using assms by (simp add: txsQuery_fst)

lemma txsQuery_Inr:
  assumes "txsQuery E q c = (Inr xs, c')"
  shows "requests c' = requests c @ [TxsQuery (q @ ''&limit=100'')]"
    and "answeredInOnePage E (requests c) [TxsQuery (q @ ''&limit=100'')]"
proof -
  have "c' = send (TxsQuery (q @ ''&limit=100'')) c"
    using assms txsQuery_snd[of E q c] by simp
  then show "requests c' = requests c @ [TxsQuery (q @ ''&limit=100'')]"
    by (simp add: send_def)
  have "fst (txsQuery E q c) = Inr xs" using assms by simp
  then show "answeredInOnePage E (requests c) [TxsQuery (q @ ''&limit=100'')]"
    by (simp add: txsQuery_fst split: sum.splits if_splits)
qed

subsection \<open>\<open>searchTx\<close>\<close>

lemma searchTx_effective:
  "searchTx E query flt c =
     (if num_lt (effectiveMaxHeight flt) (effectiveMinHeight flt) then (Inr [], c)
      else (case fetchTxs E (effectiveMinHeight flt) (effectiveMaxHeight flt) query c of
              (Inl e, c') \<Rightarrow> (Inl e, c')
            | (Inr found, c') \<Rightarrow>
                (Inr (filter (inRange (effectiveMinHeight flt) (effectiveMaxHeight flt)) found), c')))"
  unfolding searchTx_def Let_def effectiveMinHeight_def effectiveMaxHeight_def by (rule refl)

lemma fetchTxs_sentFromOrTo:
  assumes "q_height query = None" and "q_sentFromOrTo query = Some a"
    and "txsQuery E (sentQuery lo hi a) c = (Inr sent, c1)"
    and "txsQuery E (receivedQuery lo hi a) c1 = (Inr received, c2)"
  shows "fetchTxs E lo hi query c = (Inr (mergeSentReceived sent received), c2)"
  using assms
  by (simp add: fetchTxs_def isSearchByHeightQuery_def isSearchBySentFromOrToQuery_def)

lemma fetchTxs_Inr:
  assumes "fetchTxs E lo hi query c = (Inr found, c')"
  shows "\<exists>new. requests c' = requests c @ new \<and> answeredInOnePage E (requests c) new
           \<and> (new = [] \<longrightarrow> found = [])"
proof (cases "q_height query")
  case (Some h)
  show ?thesis
  proof (cases "num_lt h lo \<or> num_gt h hi")
    case True
    then have "found = []" and "c' = c"
      using assms Some by (auto simp: fetchTxs_def isSearchByHeightQuery_def)
    then show ?thesis by simp
  next
    case False
    then have "txsQuery E (''tx.height='' @ showNumber h) c = (Inr found, c')"
      using assms Some by (auto simp: fetchTxs_def isSearchByHeightQuery_def)
    from txsQuery_Inr[OF this] show ?thesis by blast
  qed
next
  case None
  note noHeight = this
  show ?thesis
  proof (cases "q_sentFromOrTo query")
    case (Some a)
    obtain rs c1 where s: "txsQuery E (sentQuery lo hi a) c = (rs, c1)"
      by (cases "txsQuery E (sentQuery lo hi a) c")
    obtain rr c2 where r: "txsQuery E (receivedQuery lo hi a) c1 = (rr, c2)"
      by (cases "txsQuery E (receivedQuery lo hi a) c1")
    have f: "fetchTxs E lo hi query c =
        (case rs of Inl e \<Rightarrow> (Inl e, c2)
         | Inr sent \<Rightarrow> (case rr of Inl e \<Rightarrow> (Inl e, c2)
               | Inr received \<Rightarrow> (Inr (mergeSentReceived sent received), c2)))"
      using noHeight Some s r
      by (simp add: fetchTxs_def isSearchByHeightQuery_def isSearchBySentFromOrToQuery_def)
    from assms f obtain sent received where
      rs: "rs = Inr sent" and rr: "rr = Inr received" and c': "c' = c2"
      by (auto split: sum.splits)
    note a1 = txsQuery_Inr[OF s[unfolded rs]]
    note a2 = txsQuery_Inr[OF r[unfolded rr]]
    have "requests c' = requests c @ [TxsQuery (sentQuery lo hi a @ ''&limit=100''),
        TxsQuery (receivedQuery lo hi a @ ''&limit=100'')]"
      using a1(1) a2(1) c' by simp
    moreover have "answeredInOnePage E (requests c)
       [TxsQuery (sentQuery lo hi a @ ''&limit=100''),
        TxsQuery (receivedQuery lo hi a @ ''&limit=100'')]"
      using a1 a2(2) by simp
    ultimately show ?thesis by blast
  next
    case None
    show ?thesis
    proof (cases "q_tags query")
      case (Some ts)
      then have "txsQuery E (withFilters lo hi (join ''&'' (map (\<lambda>(k, v). k @ ''='' @ v) ts))) c
          = (Inr found, c')"
        using assms noHeight None
        by (simp add: fetchTxs_def isSearchByHeightQuery_def isSearchBySentFromOrToQuery_def
            isSearchByTagsQuery_def)
      from txsQuery_Inr[OF this] show ?thesis by blast
    next
      case nt: None
      then show ?thesis
        using assms noHeight None
        by (simp add: fetchTxs_def isSearchByHeightQuery_def isSearchBySentFromOrToQuery_def
            isSearchByTagsQuery_def)
    qed
  qed
qed

lemma searchTx_Inr:
  assumes "searchTx E query flt c = (Inr result, c')"
  shows "\<exists>new. requests c' = requests c @ new \<and> answeredInOnePage E (requests c) new
           \<and> (new = [] \<longrightarrow> result = [])"
proof (cases "num_lt (effectiveMaxHeight flt) (effectiveMinHeight flt)")
  case True
  then have "result = []" "c' = c" using assms by (simp_all add: searchTx_effective)
  then show ?thesis by simp
next
  case False
  obtain x c1 where f: "fetchTxs E (effectiveMinHeight flt) (effectiveMaxHeight flt) query c = (x, c1)"
    by (cases "fetchTxs E (effectiveMinHeight flt) (effectiveMaxHeight flt) query c")
  with assms False obtain found where x: "x = Inr found" and c': "c' = c1"
    and res: "result = filter (inRange (effectiveMinHeight flt) (effectiveMaxHeight flt)) found"
    by (auto simp: searchTx_effective split: sum.splits)
  from fetchTxs_Inr[OF f[unfolded x]] obtain new where
    "requests c1 = requests c @ new" "answeredInOnePage E (requests c) new"
    "new = [] \<longrightarrow> found = []" by blast
  then show ?thesis using c' res by auto
qed

lemma searchTx_inRange:
  assumes "fst (searchTx E query flt c) = Inr result" and "t \<in> set result"
  shows "inRange (effectiveMinHeight flt) (effectiveMaxHeight flt) t"
proof (cases "num_lt (effectiveMaxHeight flt) (effectiveMinHeight flt)")
  case True
  then show ?thesis using assms by (simp add: searchTx_effective)
next
  case False
  obtain x c1 where f: "fetchTxs E (effectiveMinHeight flt) (effectiveMaxHeight flt) query c = (x, c1)"
    by (cases "fetchTxs E (effectiveMinHeight flt) (effectiveMaxHeight flt) query c")
  with assms(1) False obtain found where
    "result = filter (inRange (effectiveMinHeight flt) (effectiveMaxHeight flt)) found"
    by (auto simp: searchTx_effective split: sum.splits)
  then show ?thesis using assms(2) by simp
qed

lemma effective_eq_spec:
  assumes "maxHeight flt \<noteq> Some (Num 0)" "maxHeight flt \<noteq> Some NaN"
  shows "effectiveMaxHeight flt = specMaxHeight flt"
proof (cases "maxHeight flt")
  case None
  then show ?thesis by (simp add: effectiveMaxHeight_def specMaxHeight_def)
next
  case (Some v)
  then show ?thesis using assms
    by (cases v) (simp_all add: effectiveMaxHeight_def specMaxHeight_def)
qed

lemma effectiveMin_eq_spec:
  assumes "minHeight flt \<noteq> Some NaN"
  shows "effectiveMinHeight flt = specMinHeight flt"
proof (cases "minHeight flt")
  case None
  then show ?thesis by (simp add: effectiveMinHeight_def specMinHeight_def)
next
  case (Some v)
  then show ?thesis using assms
    by (cases v) (simp_all add: effectiveMinHeight_def specMinHeight_def)
qed

subsection \<open>Evaluating the examples\<close>

lemma parseInt10_examples:
  "parseInt10 ''1'' = Num 1" "parseInt10 ''2'' = Num 2" "parseInt10 ''3'' = Num 3"
  "parseInt10 ''5'' = Num 5" "parseInt10 ''6'' = Num 6" "parseInt10 ''7'' = Num 7"
  "parseInt10 ''10'' = Num 10" "parseInt10 ''12'' = Num 12" "parseInt10 ''15'' = Num 15"
  "parseInt10 ''20'' = Num 20" "parseInt10 ''100'' = Num 100"
  by code_simp+

lemma showInt_examples:
  "showInt 7 = ''7''" "showInt 0 = ''0''"
  by code_simp+

lemmas example_defs =
  bankEnv_def searchEnv_def baseEnv_def bySender_def byHeight_def noFilter_def newClient_def
  onePage_def exampleItem_def exampleTx_def unreachable_def

lemmas searchTx_defs =
  searchTx_def fetchTxs_def txsQuery_def toIndexedTx_def send_def Let_def
  isSearchByHeightQuery_def isSearchBySentFromOrToQuery_def isSearchByTagsQuery_def
  num_gt_def num_ge_def inRange_def MAX_SAFE_INTEGER_def mergeSentReceived_def
  parseInt10_examples showNat_100

lemma filter_commute: "filter P (filter Q xs) = filter Q (filter P xs)"
  by (induction xs) simp_all

subsection \<open>The claims about \<open>searchTx\<close>\<close>

text \<open>
  C1. The claim: merging a sent and a received list, each ascending by height and free of
  duplicates, gives a list of length \<open>|A| + |B| - |shared hashes|\<close> in which a shared
  transaction appears once. The loop compares only the two heads, so it finds a shared
  transaction only when it is at both heads at the same time. Here an address received
  \<open>Y\<close> and then sent \<open>Z\<close> to itself, both in block 10: \<open>Z\<close> is the head of the sent
  list while \<open>Y\<close> is the head of the received list, so \<open>Z\<close> is emitted from the sent
  list and once more with the rest of the received list. The result has three entries,
  not \<open>1 + 2 - 1\<close>. (With at most one entry per height in each list the count is
  right: \<open>length_merge_strict\<close>.)
\<close>

theorem C1_self_send_listed_twice:
  "ascendingByHeight [exampleTx 10 ''Z'']
   \<and> ascendingByHeight [exampleTx 10 ''Y'', exampleTx 10 ''Z'']
   \<and> distinct (map hash [exampleTx 10 ''Z''])
   \<and> distinct (map hash [exampleTx 10 ''Y'', exampleTx 10 ''Z''])
   \<and> sharedHashes [exampleTx 10 ''Z''] [exampleTx 10 ''Y'', exampleTx 10 ''Z''] = {''Z''}
   \<and> fst (searchTx (bankEnv [exampleItem ''10'' ''Z'']
                             [exampleItem ''10'' ''Y'', exampleItem ''10'' ''Z''])
             bySender noFilter newClient)
       = Inr [exampleTx 10 ''Z'', exampleTx 10 ''Y'', exampleTx 10 ''Z'']"
proof (intro conjI)
  show "fst (searchTx (bankEnv [exampleItem ''10'' ''Z'']
                             [exampleItem ''10'' ''Y'', exampleItem ''10'' ''Z''])
             bySender noFilter newClient)
       = Inr [exampleTx 10 ''Z'', exampleTx 10 ''Y'', exampleTx 10 ''Z'']"
    by (simp add: searchTx_defs example_defs sentQuery_def receivedQuery_def)
qed (auto simp: ascendingByHeight_def height_le_def exampleTx_def sharedHashes_def)

text \<open>
  C2, as stated: for every pair of lists ascending by height the result of the
  sent-from-or-to path is ascending. It fails when one hash is listed at two heights:
  the loop takes equal hashes for one transaction and keeps the received entry.
\<close>

theorem C2_counterexample:
  "ascendingByHeight [exampleTx 5 ''H'', exampleTx 6 ''X'']
   \<and> ascendingByHeight [exampleTx 100 ''H'']
   \<and> fst (searchTx (bankEnv [exampleItem ''5'' ''H'', exampleItem ''6'' ''X'']
                             [exampleItem ''100'' ''H''])
             bySender noFilter newClient)
       = Inr [exampleTx 100 ''H'', exampleTx 6 ''X'']
   \<and> \<not> ascendingByHeight [exampleTx 100 ''H'', exampleTx 6 ''X'']"
proof (intro conjI)
  show "fst (searchTx (bankEnv [exampleItem ''5'' ''H'', exampleItem ''6'' ''X'']
                             [exampleItem ''100'' ''H''])
             bySender noFilter newClient)
       = Inr [exampleTx 100 ''H'', exampleTx 6 ''X'']"
    by (simp add: searchTx_defs example_defs sentQuery_def receivedQuery_def)
qed (auto simp: ascendingByHeight_def height_le_def exampleTx_def)

text \<open>
  C2, amended: when the two searches return lists that are ascending by height, and a
  hash that occurs in both has the same height in both, \<open>searchTx\<close> returns a list that is
  ascending by height. The order of each list is kept: the hashes of the sent entries
  in range, and the received entries in range, are subsequences of the result. When two
  heads of equal height and different hashes meet, the sent one is emitted first; when
  no hash is shared, the entries of one height are the sent ones followed by the
  received ones, each in the order of their list.
\<close>

theorem C2_sentFromOrTo_order:
  assumes q: "q_height query = None" "q_sentFromOrTo query = Some a"
    and s: "txsQuery E (sentQuery (effectiveMinHeight flt) (effectiveMaxHeight flt) a) c
            = (Inr sent, c1)"
    and r: "txsQuery E (receivedQuery (effectiveMinHeight flt) (effectiveMaxHeight flt) a) c1
            = (Inr received, c2)"
    and asc: "ascendingByHeight sent" "ascendingByHeight received"
    and same: "sameHashSameHeight sent received"
  shows "\<exists>result. fst (searchTx E query flt c) = Inr result
      \<and> ascendingByHeight result
      \<and> subseq (map hash (filter (inRange (effectiveMinHeight flt) (effectiveMaxHeight flt)) sent))
               (map hash result)
      \<and> subseq (filter (inRange (effectiveMinHeight flt) (effectiveMaxHeight flt)) received) result
      \<and> (\<forall>(x::IndexedTx) S y R. hash x \<noteq> hash y \<and> height x = height y \<and> height x \<noteq> NaN \<longrightarrow>
            mergeSentReceived (x # S) (y # R) = x # mergeSentReceived S (y # R))
      \<and> (sharedHashes sent received = {} \<longrightarrow>
           (\<forall>h. filter (\<lambda>t. height t = h) result =
                filter (\<lambda>t. height t = h)
                  (filter (inRange (effectiveMinHeight flt) (effectiveMaxHeight flt)) sent)
                @ filter (\<lambda>t. height t = h)
                  (filter (inRange (effectiveMinHeight flt) (effectiveMaxHeight flt)) received)))"
proof -
  let ?lo = "effectiveMinHeight flt" and ?hi = "effectiveMaxHeight flt"
  let ?Q = "inRange ?lo ?hi"
  let ?M = "mergeSentReceived sent received"
  have f: "fetchTxs E ?lo ?hi query c = (Inr ?M, c2)"
    by (rule fetchTxs_sentFromOrTo[OF q s r])
  have empty: "filter ?Q xs = []" if "num_lt ?hi ?lo" for xs
    using that by (simp add: filter_empty_conv inRange_empty)
  have res: "fst (searchTx E query flt c) = Inr (filter ?Q ?M)"
    using f empty by (simp add: searchTx_effective)
  have 1: "ascendingByHeight (filter ?Q ?M)"
    by (rule ascending_filter[OF ascending_merge[OF asc same]])
  have 2: "subseq (map hash (filter ?Q sent)) (map hash (filter ?Q ?M))"
    using same by (intro subseq_sent_hashes_inRange) (simp add: sameHashSameHeight_iff)
  have 3: "subseq (filter ?Q received) (filter ?Q ?M)"
    by (rule subseq_filter[OF subseq_received])
  have 4: "mergeSentReceived (x # S) (y # R) = x # mergeSentReceived S (y # R)"
    if "hash x \<noteq> hash y \<and> height x = height y \<and> height x \<noteq> NaN"
    for x y :: IndexedTx and S R
  proof -
    from that have "num_le (height x) (height y)"
      by (cases "height x"; cases "height y") simp_all
    with that show ?thesis by (simp add: mergeSentReceived_Cons)
  qed
  have 5: "filter (\<lambda>t. height t = h) (filter ?Q ?M) =
           filter (\<lambda>t. height t = h) (filter ?Q sent)
           @ filter (\<lambda>t. height t = h) (filter ?Q received)"
    if "sharedHashes sent received = {}" for h
  proof -
    from that have "\<forall>s\<in>set sent. \<forall>r\<in>set received. hash s \<noteq> hash r"
      unfolding sharedHashes_def by blast
    from stable_merge[OF asc this, of h]
    have "filter ?Q (filter (\<lambda>t. height t = h) ?M) =
          filter ?Q (filter (\<lambda>t. height t = h) sent)
          @ filter ?Q (filter (\<lambda>t. height t = h) received)"
      by (simp only: filter_append)
    then show ?thesis by (simp only: filter_commute[of "\<lambda>t. height t = h"])
  qed
  from res 1 2 3 4 5 show ?thesis by blast
qed

text \<open>The witness is the example of the specification: \<open>A(10), B(20)\<close> sent,
  \<open>C(15), B(20)\<close> received.\<close>

theorem C2_sentFromOrTo_order_witness:
  "fst (searchTx (bankEnv [exampleItem ''10'' ''A'', exampleItem ''20'' ''B'']
                          [exampleItem ''15'' ''C'', exampleItem ''20'' ''B''])
          bySender noFilter newClient)
     = Inr [exampleTx 10 ''A'', exampleTx 15 ''C'', exampleTx 20 ''B'']
   \<and> ascendingByHeight [exampleTx 10 ''A'', exampleTx 15 ''C'', exampleTx 20 ''B'']"
proof -
  let ?E = "bankEnv [exampleItem ''10'' ''A'', exampleItem ''20'' ''B'']
                    [exampleItem ''15'' ''C'', exampleItem ''20'' ''B'']"
  let ?lo = "effectiveMinHeight noFilter" and ?hi = "effectiveMaxHeight noFilter"
  let ?sent = "[exampleTx 10 ''A'', exampleTx 20 ''B'']"
  let ?received = "[exampleTx 15 ''C'', exampleTx 20 ''B'']"
  let ?c1 = "snd (txsQuery ?E (sentQuery ?lo ?hi ''orai1'') newClient)"
  let ?c2 = "snd (txsQuery ?E (receivedQuery ?lo ?hi ''orai1'') ?c1)"
  have q: "q_height bySender = None" "q_sentFromOrTo bySender = Some ''orai1''"
    by (simp_all add: bySender_def)
  have "fst (txsQuery ?E (sentQuery ?lo ?hi ''orai1'') newClient) = Inr ?sent"
    by (simp add: txsQuery_fst example_defs morePages_def num_gt_def toIndexedTx_def
        parseInt10_examples)
  then have s: "txsQuery ?E (sentQuery ?lo ?hi ''orai1'') newClient = (Inr ?sent, ?c1)"
    by (simp add: prod_eq_iff)
  have "requests ?c1 \<noteq> []" by (simp add: txsQuery_snd send_def)
  then have "fst (txsQuery ?E (receivedQuery ?lo ?hi ''orai1'') ?c1) = Inr ?received"
    by (simp add: txsQuery_fst example_defs morePages_def num_gt_def toIndexedTx_def
        parseInt10_examples)
  then have r: "txsQuery ?E (receivedQuery ?lo ?hi ''orai1'') ?c1 = (Inr ?received, ?c2)"
    by (simp add: prod_eq_iff)
  have asc: "ascendingByHeight ?sent" "ascendingByHeight ?received"
    by (simp_all add: ascendingByHeight_def height_le_def exampleTx_def)
  have same: "sameHashSameHeight ?sent ?received"
    by (simp add: sameHashSameHeight_def exampleTx_def)
  have e: "fst (searchTx ?E bySender noFilter newClient)
       = Inr [exampleTx 10 ''A'', exampleTx 15 ''C'', exampleTx 20 ''B'']"
    by (simp add: searchTx_defs example_defs sentQuery_def receivedQuery_def)
  from C2_sentFromOrTo_order[OF q s r asc same] e show ?thesis by auto
qed

text \<open>
  C3, as stated: whenever \<open>filter.maxHeight < filter.minHeight\<close>, with only an
  unspecified bound replaced by its default, \<open>searchTx\<close> returns the empty list and sends
  nothing. With \<open>maxHeight = 0\<close> and \<open>minHeight = 5\<close> the client takes the 0 for no bound
  (\<open>filter.maxHeight || Number.MAX_SAFE_INTEGER\<close>), sends the search and returns what it
  finds from height 5 on.
\<close>

theorem C3_counterexample:
  "num_lt (specMaxHeight \<lparr>minHeight = Some (Num 5), maxHeight = Some (Num 0)\<rparr>)
          (specMinHeight \<lparr>minHeight = Some (Num 5), maxHeight = Some (Num 0)\<rparr>)
   \<and> searchTx (searchEnv (onePage [exampleItem ''7'' ''A''])) (byHeight 7)
        \<lparr>minHeight = Some (Num 5), maxHeight = Some (Num 0)\<rparr> newClient
     = (Inr [exampleTx 7 ''A''],
        newClient\<lparr>requests := [TxsQuery ''tx.height=7&limit=100'']\<rparr>)"
  by (simp add: specMaxHeight_def specMinHeight_def searchTx_defs example_defs
      showInt_examples)

text \<open>
  C3, amended: the bounds are the ones the client computes, where a bound that is
  unspecified, 0 or \<open>NaN\<close> takes its default. Whenever the upper bound is below the lower
  one, \<open>searchTx\<close> returns the empty list and leaves the client as it was: no request is
  sent. In particular the claim as stated holds for every filter whose \<open>maxHeight\<close> is
  not 0.
\<close>

theorem C3_inverted_range_sends_nothing:
  "(num_lt (effectiveMaxHeight flt) (effectiveMinHeight flt) \<longrightarrow>
      searchTx E query flt c = (Inr [], c))
   \<and> (maxHeight flt \<noteq> Some (Num 0) \<and> num_lt (specMaxHeight flt) (specMinHeight flt) \<longrightarrow>
      searchTx E query flt c = (Inr [], c))"
proof (intro conjI impI)
  assume "num_lt (effectiveMaxHeight flt) (effectiveMinHeight flt)"
  then show "searchTx E query flt c = (Inr [], c)" by (simp add: searchTx_effective)
next
  assume a: "maxHeight flt \<noteq> Some (Num 0) \<and> num_lt (specMaxHeight flt) (specMinHeight flt)"
  then have "specMaxHeight flt \<noteq> NaN" and "specMinHeight flt \<noteq> NaN"
    by (cases "specMaxHeight flt"; cases "specMinHeight flt"; simp)+
  then have "maxHeight flt \<noteq> Some NaN" and "minHeight flt \<noteq> Some NaN"
    by (auto simp: specMaxHeight_def specMinHeight_def)
  with a have "num_lt (effectiveMaxHeight flt) (effectiveMinHeight flt)"
    by (simp add: effective_eq_spec effectiveMin_eq_spec)
  then show "searchTx E query flt c = (Inr [], c)" by (simp add: searchTx_effective)
qed

theorem C3_inverted_range_sends_nothing_witness:
  "num_lt (effectiveMaxHeight \<lparr>minHeight = Some (Num 10), maxHeight = Some (Num 5)\<rparr>)
          (effectiveMinHeight \<lparr>minHeight = Some (Num 10), maxHeight = Some (Num 5)\<rparr>)
   \<and> num_lt (specMaxHeight \<lparr>minHeight = Some (Num 10), maxHeight = Some (Num 5)\<rparr>)
            (specMinHeight \<lparr>minHeight = Some (Num 10), maxHeight = Some (Num 5)\<rparr>)
   \<and> searchTx (searchEnv (onePage [exampleItem ''7'' ''A''])) (byHeight 7)
        \<lparr>minHeight = Some (Num 10), maxHeight = Some (Num 5)\<rparr> newClient
      = (Inr [], newClient)
   \<and> requests newClient = []"
  using C3_inverted_range_sends_nothing
    [of "\<lparr>minHeight = Some (Num 10), maxHeight = Some (Num 5)\<rparr>"
        "searchEnv (onePage [exampleItem ''7'' ''A''])" "byHeight 7" newClient]
  by (simp add: effectiveMaxHeight_def effectiveMinHeight_def specMaxHeight_def
      specMinHeight_def newClient_def)

text \<open>
  C4, as stated: every returned transaction has its height in
  \<open>[filter.minHeight, filter.maxHeight]\<close>, with only an unspecified bound replaced by its
  default. With \<open>maxHeight = 0\<close> the range of the claim is \<open>[0, 0]\<close>, but the client
  takes the 0 for no upper bound and returns the transaction of height 7.
\<close>

theorem C4_counterexample:
  "fst (searchTx (searchEnv (onePage [exampleItem ''7'' ''A''])) (byHeight 7)
          \<lparr>minHeight = None, maxHeight = Some (Num 0)\<rparr> newClient)
     = Inr [exampleTx 7 ''A'']
   \<and> \<not> inRange (specMinHeight \<lparr>minHeight = None, maxHeight = Some (Num 0)\<rparr>)
               (specMaxHeight \<lparr>minHeight = None, maxHeight = Some (Num 0)\<rparr>)
               (exampleTx 7 ''A'')"
  by (simp add: specMaxHeight_def specMinHeight_def searchTx_defs example_defs
      showInt_examples)

text \<open>
  C4, amended: whatever the backend answers and whichever query path ran, every
  transaction \<open>searchTx\<close> returns has a height within the bounds the client computes,
  where a bound that is unspecified, 0 or \<open>NaN\<close> takes its default (0 and the largest
  safe integer). For a filter whose bounds are not \<open>NaN\<close> and whose \<open>maxHeight\<close> is not
  0, these are the bounds of the claim.
\<close>

theorem C4_results_within_bounds:
  assumes "fst (searchTx E query flt c) = Inr result" and "t \<in> set result"
  shows "inRange (effectiveMinHeight flt) (effectiveMaxHeight flt) t
     \<and> (maxHeight flt \<noteq> Some (Num 0) \<and> maxHeight flt \<noteq> Some NaN \<and> minHeight flt \<noteq> Some NaN
          \<longrightarrow> inRange (specMinHeight flt) (specMaxHeight flt) t)"
  using searchTx_inRange[OF assms]
  by (auto simp: effective_eq_spec effectiveMin_eq_spec)

text \<open>The witness: asked for height 7 within \<open>[5, 10]\<close>, the backend also returns
  transactions of heights 3 and 12; the client drops them.\<close>

theorem C4_results_within_bounds_witness:
  "fst (searchTx (searchEnv (onePage [exampleItem ''3'' ''A'', exampleItem ''7'' ''B'',
                                       exampleItem ''12'' ''C'']))
          (byHeight 7) \<lparr>minHeight = Some (Num 5), maxHeight = Some (Num 10)\<rparr> newClient)
     = Inr [exampleTx 7 ''B'']
   \<and> inRange (Num 5) (Num 10) (exampleTx 7 ''B'')"
proof -
  let ?E = "searchEnv (onePage [exampleItem ''3'' ''A'', exampleItem ''7'' ''B'',
                                 exampleItem ''12'' ''C''])"
  let ?flt = "\<lparr>minHeight = Some (Num 5), maxHeight = Some (Num 10)\<rparr>"
  have e: "fst (searchTx ?E (byHeight 7) ?flt newClient) = Inr [exampleTx 7 ''B'']"
    by (simp add: searchTx_defs example_defs showInt_examples)
  have m: "exampleTx 7 ''B'' \<in> set [exampleTx 7 ''B'']" by simp
  from C4_results_within_bounds[OF e m] e show ?thesis
    by (simp add: effectiveMaxHeight_def effectiveMinHeight_def)
qed

text \<open>
  C5. When the response to a search reports more than one page, \<open>txsQuery\<close> raises the
  error that names the total count and the limit of 100, and \<open>getTx\<close> raises it with it.
  \<open>searchTx\<close> returns a list only if every search it sent was answered with at most one
  page, and a list it returns without having sent a search is empty: no caller is handed
  the first page of a longer result.
\<close>

theorem C5_more_pages_raise:
  "(lcd_txsQuery E (requests c) (q @ ''&limit=100'') = Inr r \<and> morePages r \<longrightarrow>
      fst (txsQuery E q c) = Inl (UnsupportedPaginationError (total_count r)))
   \<and> (lcd_txsQuery E (requests c) (''tx.hash='' @ ident @ ''&limit=100'') = Inr r \<and> morePages r \<longrightarrow>
      fst (getTx E ident c) = Inl (UnsupportedPaginationError (total_count r)))
   \<and> (searchTx E query flt c = (Inr result, c') \<longrightarrow>
      (\<exists>new. requests c' = requests c @ new \<and> answeredInOnePage E (requests c) new
             \<and> (new = [] \<longrightarrow> result = [])))"
proof (intro conjI impI)
  assume "lcd_txsQuery E (requests c) (q @ ''&limit=100'') = Inr r \<and> morePages r"
  then show "fst (txsQuery E q c) = Inl (UnsupportedPaginationError (total_count r))"
    by (simp add: txsQuery_Inl_UnsupportedPagination)
next
  assume a: "lcd_txsQuery E (requests c) (''tx.hash='' @ ident @ ''&limit=100'') = Inr r
      \<and> morePages r"
  have "fst (txsQuery E (''tx.hash='' @ ident) c) = Inl (UnsupportedPaginationError (total_count r))"
    using a by (intro txsQuery_Inl_UnsupportedPagination) simp_all
  then show "fst (getTx E ident c) = Inl (UnsupportedPaginationError (total_count r))"
    by (cases "txsQuery E (''tx.hash='' @ ident) c") (simp add: getTx_def)
next
  assume "searchTx E query flt c = (Inr result, c')"
  then show "\<exists>new. requests c' = requests c @ new \<and> answeredInOnePage E (requests c) new
             \<and> (new = [] \<longrightarrow> result = [])"
    by (rule searchTx_Inr)
qed

text \<open>The witness: a backend that reports 150 results on two pages, and one that
  reports a single page.\<close>

theorem C5_more_pages_raise_witness:
  "morePages \<lparr>total_count = ''150'', page_total = ''2'', txs = [exampleItem ''7'' ''A'']\<rparr>
   \<and> fst (txsQuery (searchEnv \<lparr>total_count = ''150'', page_total = ''2'',
                                 txs = [exampleItem ''7'' ''A'']\<rparr>) ''tx.height=7'' newClient)
      = Inl (Error ''Found more results on the backend than we can process currently. Results: 150, supported: 100'')
   \<and> fst (getTx (searchEnv \<lparr>total_count = ''150'', page_total = ''2'',
                              txs = [exampleItem ''7'' ''A'']\<rparr>) ''AB'' newClient)
      = Inl (Error ''Found more results on the backend than we can process currently. Results: 150, supported: 100'')
   \<and> fst (searchTx (searchEnv \<lparr>total_count = ''150'', page_total = ''2'',
                              txs = [exampleItem ''7'' ''A'']\<rparr>) (byHeight 7) noFilter newClient)
      = Inl (Error ''Found more results on the backend than we can process currently. Results: 150, supported: 100'')
   \<and> searchTx (searchEnv (onePage [exampleItem ''7'' ''A''])) (byHeight 7) noFilter newClient
      = (Inr [exampleTx 7 ''A''], newClient\<lparr>requests := [TxsQuery ''tx.height=7&limit=100'']\<rparr>)
   \<and> answeredInOnePage (searchEnv (onePage [exampleItem ''7'' ''A''])) []
        [TxsQuery ''tx.height=7&limit=100'']"
proof -
  let ?r = "\<lparr>total_count = ''150'', page_total = ''2'', txs = [exampleItem ''7'' ''A'']\<rparr>"
  have m: "morePages ?r" by (simp add: morePages_def num_gt_def parseInt10_examples)
  have a: "lcd_txsQuery (searchEnv ?r) sentBefore q = Inr ?r" for sentBefore q
    by (simp add: searchEnv_def)
  have 1: "fst (txsQuery (searchEnv ?r) ''tx.height=7'' newClient)
      = Inl (UnsupportedPaginationError ''150'')"
    using C5_more_pages_raise[of "searchEnv ?r" newClient "''tx.height=7''" ?r, THEN conjunct1]
      a m by simp
  have 2: "fst (getTx (searchEnv ?r) ''AB'' newClient) = Inl (UnsupportedPaginationError ''150'')"
    using C5_more_pages_raise[of "searchEnv ?r" newClient _ ?r "''AB''",
        THEN conjunct2, THEN conjunct1] a m by simp
  have 3: "fst (searchTx (searchEnv ?r) (byHeight 7) noFilter newClient)
      = Inl (UnsupportedPaginationError ''150'')"
    by (simp add: searchTx_defs example_defs showInt_examples)
  have 4: "searchTx (searchEnv (onePage [exampleItem ''7'' ''A''])) (byHeight 7) noFilter newClient
      = (Inr [exampleTx 7 ''A''], newClient\<lparr>requests := [TxsQuery ''tx.height=7&limit=100'']\<rparr>)"
    by (simp add: searchTx_defs example_defs showInt_examples)
  have 5: "answeredInOnePage (searchEnv (onePage [exampleItem ''7'' ''A''])) []
        [TxsQuery ''tx.height=7&limit=100'']"
    using C5_more_pages_raise[of "searchEnv (onePage [exampleItem ''7'' ''A''])" newClient
        _ _ _ "byHeight 7" noFilter "[exampleTx 7 ''A'']"
        "newClient\<lparr>requests := [TxsQuery ''tx.height=7&limit=100'']\<rparr>",
        THEN conjunct2, THEN conjunct2] 4
    by (simp add: newClient_def)
  from m 1 2 3 4 5 show ?thesis
    by (simp add: UnsupportedPaginationError_def showNat_100)
qed

subsection \<open>\<open>broadcastTx\<close>\<close>

lemma matchesHexPairs_strictHex: "matchesHexPairs s \<longleftrightarrow> strictHex s"
proof (induction s rule: matchesHexPairs.induct)
  case (1 a b rest)
  show ?case
  proof (cases "rest = []")
    case True
    then show ?thesis by (simp add: strictHex_def)
  next
    case False
    with 1 show ?thesis by (auto simp: strictHex_def)
  qed
qed (simp_all add: strictHex_def)

text \<open>
  C6. Let the backend answer the broadcast. If the hash it returns is not strict hex
  (non-empty, of even length, upper-case hexadecimal), \<open>broadcastTx\<close> raises the
  ill-formatted-txhash error. If it is, and the code field is populated, the result is
  the object with the parsed height, the hash, the code and the raw log, whenever the
  height parses; if the code field is absent, the result is the object with the logs, the
  raw log, the hash and the data decoded from hex (absent when there is none), whenever
  the data decodes. A returned object is of the first shape exactly when the code field
  is populated.
\<close>

theorem C6_broadcastTx_shapes:
  assumes "lcd_broadcastTx E (requests c) stdTx = Inr result"
  shows "(\<not> strictHex (b_txhash result) \<longrightarrow>
            fst (broadcastTx E stdTx c)
              = Inl (Error ''Received ill-formatted txhash. Must be non-empty upper-case hex''))
     \<and> (strictHex (b_txhash result) \<longrightarrow>
          (\<forall>cd h. b_code result = Some cd \<and> Uint53_fromString E (b_height result) = Inr h \<longrightarrow>
             fst (broadcastTx E stdTx c)
               = Inr (WithCode h (b_txhash result) cd (str_or (b_raw_log result) [])))
        \<and> (b_code result = None \<and> str_or_undefined (b_data result) = None \<longrightarrow>
             fst (broadcastTx E stdTx c)
               = Inr (WithLogs (case b_logs result of None \<Rightarrow> [] | Some l \<Rightarrow> l)
                        (str_or (b_raw_log result) []) (b_txhash result) None))
        \<and> (\<forall>d bytes. b_code result = None \<and> str_or_undefined (b_data result) = Some d
                \<and> fromHex E d = Inr bytes \<longrightarrow>
             fst (broadcastTx E stdTx c)
               = Inr (WithLogs (case b_logs result of None \<Rightarrow> [] | Some l \<Rightarrow> l)
                        (str_or (b_raw_log result) []) (b_txhash result) (Some bytes)))
        \<and> (\<forall>out. fst (broadcastTx E stdTx c) = Inr out \<longrightarrow>
             (isWithCode out \<longleftrightarrow> b_code result \<noteq> None)))"
proof (intro conjI impI allI)
  assume "\<not> strictHex (b_txhash result)"
  then show "fst (broadcastTx E stdTx c)
      = Inl (Error ''Received ill-formatted txhash. Must be non-empty upper-case hex'')"
    using assms
    by (simp add: broadcastTx_def Let_def matchesHexPairs_strictHex IllFormattedTxhashError_def)
next
  fix cd h
  assume "strictHex (b_txhash result)"
    and "b_code result = Some cd \<and> Uint53_fromString E (b_height result) = Inr h"
  then show "fst (broadcastTx E stdTx c)
      = Inr (WithCode h (b_txhash result) cd (str_or (b_raw_log result) []))"
    using assms by (simp add: broadcastTx_def Let_def matchesHexPairs_strictHex)
next
  assume "strictHex (b_txhash result)"
    and "b_code result = None \<and> str_or_undefined (b_data result) = None"
  then show "fst (broadcastTx E stdTx c)
      = Inr (WithLogs (case b_logs result of None \<Rightarrow> [] | Some l \<Rightarrow> l)
               (str_or (b_raw_log result) []) (b_txhash result) None)"
    using assms by (simp add: broadcastTx_def Let_def matchesHexPairs_strictHex)
next
  fix d bytes
  assume "strictHex (b_txhash result)"
    and "b_code result = None \<and> str_or_undefined (b_data result) = Some d
         \<and> fromHex E d = Inr bytes"
  then show "fst (broadcastTx E stdTx c)
      = Inr (WithLogs (case b_logs result of None \<Rightarrow> [] | Some l \<Rightarrow> l)
               (str_or (b_raw_log result) []) (b_txhash result) (Some bytes))"
    using assms by (simp add: broadcastTx_def Let_def matchesHexPairs_strictHex)
next
  fix out
  assume "strictHex (b_txhash result)" and "fst (broadcastTx E stdTx c) = Inr out"
  then show "isWithCode out \<longleftrightarrow> b_code result \<noteq> None"
    using assms
    by (auto simp: broadcastTx_def Let_def matchesHexPairs_strictHex isWithCode_def
        split: option.splits sum.splits)
qed

text \<open>The witness: the hash \<open>deadbeef\<close> is refused; \<open>DEAD\<close> with code 0 gives the
  first shape, \<open>DEAD\<close> without a code the second.\<close>

theorem C6_broadcastTx_shapes_witness:
  "\<not> strictHex ''deadbeef'' \<and> strictHex ''DEAD''
   \<and> fst (broadcastTx (broadcastEnv (exampleBroadcast ''deadbeef'' (Some (Num 0)))) ''{}'' newClient)
       = Inl (Error ''Received ill-formatted txhash. Must be non-empty upper-case hex'')
   \<and> fst (broadcastTx (broadcastEnv (exampleBroadcast ''DEAD'' (Some (Num 0)))) ''{}'' newClient)
       = Inr (WithCode (Num 12) ''DEAD'' (Num 0) [])
   \<and> fst (broadcastTx (broadcastEnv (exampleBroadcast ''DEAD'' None)) ''{}'' newClient)
       = Inr (WithLogs [] [] ''DEAD'' None)"
proof -
  have h: "\<not> strictHex ''deadbeef''" "strictHex ''DEAD''"
    by (simp_all add: strictHex_def isUpperHexDigit_def)
  have a: "lcd_broadcastTx (broadcastEnv r) (requests newClient) ''{}'' = Inr r" for r
    by (simp add: broadcastEnv_def)
  have 1: "fst (broadcastTx (broadcastEnv (exampleBroadcast ''deadbeef'' (Some (Num 0)))) ''{}''
             newClient)
       = Inl (Error ''Received ill-formatted txhash. Must be non-empty upper-case hex'')"
    using C6_broadcastTx_shapes[OF a, of "exampleBroadcast ''deadbeef'' (Some (Num 0))",
        THEN conjunct1] h
    by (simp add: exampleBroadcast_def)
  have 2: "fst (broadcastTx (broadcastEnv (exampleBroadcast ''DEAD'' (Some (Num 0)))) ''{}''
             newClient)
       = Inr (WithCode (Num 12) ''DEAD'' (Num 0) [])"
    using C6_broadcastTx_shapes[OF a, of "exampleBroadcast ''DEAD'' (Some (Num 0))",
        THEN conjunct2] h
    by (simp add: exampleBroadcast_def broadcastEnv_def baseEnv_def parseInt10_examples)
  have 3: "fst (broadcastTx (broadcastEnv (exampleBroadcast ''DEAD'' None)) ''{}'' newClient)
       = Inr (WithLogs [] [] ''DEAD'' None)"
    using C6_broadcastTx_shapes[OF a, of "exampleBroadcast ''DEAD'' None", THEN conjunct2] h
    by (simp add: exampleBroadcast_def)
  from h 1 2 3 show ?thesis by simp
qed

subsection \<open>\<open>getAccount\<close> and \<open>getSequence\<close>\<close>

text \<open>
  C7. When the backend answers the account lookup with a record whose address is empty,
  \<open>getAccount\<close> returns \<open>undefined\<close> and raises nothing, and \<open>getSequence\<close> on the same
  address raises the error whose message says that the account does not exist on chain
  and must receive tokens first. Whenever \<open>getAccount\<close> returns an account,
  \<open>getSequence\<close> returns the account number and the sequence of that account.
\<close>

theorem C7_absent_account:
  "(lcd_get_account E (requests c) (''/auth/accounts/'' @ addr) = Inr v \<and> v_address v = [] \<longrightarrow>
      fst (getAccount E addr c) = Inr None
      \<and> fst (getSequence E addr c)
          = Inl (Error ''Account does not exist on chain. Send some tokens there before trying to query sequence.''))
   \<and> (getAccount E addr c = (Inr (Some account), c') \<longrightarrow>
      getSequence E addr c
        = (Inr \<lparr>gs_accountNumber = accountNumber account, gs_sequence = sequence account\<rparr>, c'))"
proof (intro conjI impI)
  assume a: "lcd_get_account E (requests c) (''/auth/accounts/'' @ addr) = Inr v \<and> v_address v = []"
  then show g: "fst (getAccount E addr c) = Inr None"
    by (simp add: getAccount_def Let_def)
  then show "fst (getSequence E addr c)
      = Inl (Error ''Account does not exist on chain. Send some tokens there before trying to query sequence.'')"
    by (cases "getAccount E addr c") (simp add: getSequence_def AccountNotFoundError_def)
next
  assume "getAccount E addr c = (Inr (Some account), c')"
  then show "getSequence E addr c
      = (Inr \<lparr>gs_accountNumber = accountNumber account, gs_sequence = sequence account\<rparr>, c')"
    by (simp add: getSequence_def)
qed

theorem C7_absent_account_witness:
  "fst (getAccount (accountEnv (exampleAccountValue [])) ''orai1'' newClient) = Inr None
   \<and> fst (getSequence (accountEnv (exampleAccountValue [])) ''orai1'' newClient)
       = Inl (Error ''Account does not exist on chain. Send some tokens there before trying to query sequence.'')
   \<and> fst (getAccount (accountEnv (exampleAccountValue ''orai1'')) ''orai1'' newClient)
       = Inr (Some \<lparr>address = ''orai1'', balance = [], pubkey = None, accountNumber = Num 7,
                     sequence = Num 3\<rparr>)
   \<and> fst (getSequence (accountEnv (exampleAccountValue ''orai1'')) ''orai1'' newClient)
       = Inr \<lparr>gs_accountNumber = Num 7, gs_sequence = Num 3\<rparr>"
proof -
  let ?acc = "\<lparr>address = ''orai1'', balance = [], pubkey = None, accountNumber = Num 7,
                     sequence = Num 3\<rparr>"
  let ?E = "accountEnv (exampleAccountValue ''orai1'')"
  have 1: "fst (getAccount (accountEnv (exampleAccountValue [])) ''orai1'' newClient) = Inr None
   \<and> fst (getSequence (accountEnv (exampleAccountValue [])) ''orai1'' newClient)
       = Inl (Error ''Account does not exist on chain. Send some tokens there before trying to query sequence.'')"
    using C7_absent_account[of "accountEnv (exampleAccountValue [])" newClient "''orai1''"
        "exampleAccountValue []", THEN conjunct1]
    by (simp add: accountEnv_def exampleAccountValue_def)
  have 2: "fst (getAccount ?E ''orai1'' newClient) = Inr (Some ?acc)"
    by (simp add: getAccount_def Let_def accountEnv_def exampleAccountValue_def baseEnv_def
        parseInt10_examples)
  then have "getAccount ?E ''orai1'' newClient = (Inr (Some ?acc), snd (getAccount ?E ''orai1'' newClient))"
    by (simp add: prod_eq_iff)
  from C7_absent_account[THEN conjunct2, rule_format, OF this]
  have 3: "fst (getSequence ?E ''orai1'' newClient)
       = Inr \<lparr>gs_accountNumber = Num 7, gs_sequence = Num 3\<rparr>" by simp
  from 1 2 3 show ?thesis by simp
qed

subsection \<open>What a call leaves of the caches\<close>

lemma keepsCaches_refl [simp]: "keepsCaches c c"
  by (simp add: keepsCaches_def)






























subsection \<open>\<open>getChainId\<close>\<close>






subsection \<open>\<open>getCodeDetails\<close>\<close>



subsection \<open>\<open>queryContractRaw\<close>\<close>

text \<open>
  C10. For a contract that exists, \<open>queryContractRaw\<close> returns \<open>null\<close> when the backend
  answers the raw query with \<open>null\<close> and when it answers with the empty string, with the
  same two requests sent, so the two cannot be told apart; in the string shape of
  CosmWasm 0.11 it returns \<open>null\<close> exactly for the empty string, and in the array shape
  of CosmWasm 0.10 exactly for the empty array.
\<close>

theorem C10_raw_query_null:
  assumes "lcd_get_contract E (requests c) (''/wasm/contract/'' @ addr)
             = Inr (WasmSuccess h (Some info))"
    and "lcd_get_raw E (requests c @ [Get (''/wasm/contract/'' @ addr)])
             (''/wasm/contract/'' @ addr @ ''/raw/'' @ toHex E k @ ''?encoding=hex'')
             = Inr (WasmSuccess h' d)"
  shows "(d = RawNull \<or> d = RawString [] \<longrightarrow>
            queryContractRaw E addr k c
              = (Inr None,
                 send (Get (''/wasm/contract/'' @ addr @ ''/raw/'' @ toHex E k @ ''?encoding=hex''))
                   (send (Get (''/wasm/contract/'' @ addr)) c)))
     \<and> (\<forall>s. d = RawString s \<longrightarrow> (fst (queryContractRaw E addr k c) = Inr None \<longleftrightarrow> s = []))
     \<and> (\<forall>xs. d = RawArray xs \<longrightarrow> (fst (queryContractRaw E addr k c) = Inr None \<longleftrightarrow> xs = []))"
proof -
  let ?c1 = "send (Get (''/wasm/contract/'' @ addr)) c"
  let ?path = "''/wasm/contract/'' @ addr @ ''/raw/'' @ toHex E k @ ''?encoding=hex''"
  have g: "getContract E addr c =
      (Inr \<lparr>c_address = i_address info, c_codeId = i_code_id info,
             c_creator = i_creator info, c_admin = i_admin info, c_label = i_label info\<rparr>, ?c1)"
    using assms(1) by (simp add: getContract_def wasm_getContractInfo_def Let_def)
  have r: "requests ?c1 = requests c @ [Get (''/wasm/contract/'' @ addr)]"
    by (simp add: send_def)
  have q: "queryContractRaw E addr k c = (decodeRaw E d, send (Get ?path) ?c1)"
    using g assms(2) r
    by (simp add: queryContractRaw_def wasm_queryContractRaw_def Let_def)
  show ?thesis
  proof (intro conjI impI allI)
    assume "d = RawNull \<or> d = RawString []"
    then show "queryContractRaw E addr k c = (Inr None, send (Get ?path) ?c1)"
      unfolding q by (auto simp: decodeRaw_def)
  next
    fix s assume "d = RawString s"
    then show "fst (queryContractRaw E addr k c) = Inr None \<longleftrightarrow> s = []"
      unfolding q by (simp add: decodeRaw_def split: sum.splits)
  next
    fix xs assume "d = RawArray xs"
    then show "fst (queryContractRaw E addr k c) = Inr None \<longleftrightarrow> xs = []"
      unfolding q by (simp add: decodeRaw_def split: sum.splits list.splits)
  qed
qed

text \<open>The witness: a contract whose backend answers the raw query with the empty
  string, with \<open>null\<close>, with the empty array, and with an array holding an empty value.\<close>

theorem C10_raw_query_null_witness:
  "fst (queryContractRaw (contractEnv (RawString [])) ''orai1c'' [] newClient) = Inr None
   \<and> queryContractRaw (contractEnv (RawString [])) ''orai1c'' [] newClient
     = queryContractRaw (contractEnv RawNull) ''orai1c'' [] newClient
   \<and> fst (queryContractRaw (contractEnv (RawArray [])) ''orai1c'' [] newClient) = Inr None
   \<and> fst (queryContractRaw (contractEnv (RawArray [\<lparr>key = ''00'', val = []\<rparr>])) ''orai1c'' []
            newClient) \<noteq> Inr None"
proof -
  have c: "lcd_get_contract (contractEnv d) (requests newClient) (''/wasm/contract/'' @ ''orai1c'')
             = Inr (WasmSuccess ''1'' (Some exampleContract))" for d
    by (simp add: contractEnv_def)
  have r: "lcd_get_raw (contractEnv d) (requests newClient @ [Get (''/wasm/contract/'' @ ''orai1c'')])
             (''/wasm/contract/'' @ ''orai1c'' @ ''/raw/'' @ toHex (contractEnv d) [] @ ''?encoding=hex'')
             = Inr (WasmSuccess ''1'' d)" for d
    by (simp add: contractEnv_def)
  have t: "toHex (contractEnv d) [] = []" for d
    by (simp add: contractEnv_def baseEnv_def)
  note w = C10_raw_query_null[OF c r]
  have 1: "queryContractRaw (contractEnv (RawString [])) ''orai1c'' [] newClient
      = (Inr None, send (Get (''/wasm/contract/'' @ ''orai1c'' @ ''/raw/'' @ [] @ ''?encoding=hex''))
                   (send (Get (''/wasm/contract/'' @ ''orai1c'')) newClient))"
    using w[of "RawString []", THEN conjunct1] by (simp add: t)
  have 2: "queryContractRaw (contractEnv RawNull) ''orai1c'' [] newClient
      = (Inr None, send (Get (''/wasm/contract/'' @ ''orai1c'' @ ''/raw/'' @ [] @ ''?encoding=hex''))
                   (send (Get (''/wasm/contract/'' @ ''orai1c'')) newClient))"
    using w[of RawNull, THEN conjunct1] by (simp add: t)
  have 3: "fst (queryContractRaw (contractEnv (RawArray [])) ''orai1c'' [] newClient) = Inr None"
    using w[of "RawArray []", THEN conjunct2, THEN conjunct2] by simp
  have 4: "fst (queryContractRaw (contractEnv (RawArray [\<lparr>key = ''00'', val = []\<rparr>])) ''orai1c'' []
            newClient) \<noteq> Inr None"
    using w[of "RawArray [\<lparr>key = ''00'', val = []\<rparr>]", THEN conjunct2, THEN conjunct2] by simp
  from 1 2 3 4 show ?thesis by simp
qed

end
